theory Spec2Isabelle
  imports Main "HOL-Library.Word"
begin

section \<open>Values shared by the storage client\<close>

text \<open>
  The embedding follows \<open>StorachaClient\<close> (storage/client.ts) and its type
  declarations (storage/types.ts). JavaScript strings are \<open>string\<close>, a
  \<open>Uint8Array\<close> is a list of bytes, an optional or nullable value is an
  \<open>option\<close>, and every \<open>throw\<close> is an \<open>Inl\<close> of the datatype \<open>error\<close>, one
  constructor for each throw site.
\<close>

type_synonym bytes = "8 word list"

type_synonym cid = string

text \<open>
  A JavaScript number that holds an integer, as \<open>parseInt\<close> returns it: \<open>NaN\<close>, an
  integer value that a double represents, or an infinity.
\<close>

datatype Number = NaN | Finite int | PosInfinity | NegInfinity

datatype error =
    InvalidUrl string
  | SchemeNotAllowed string "string list"
  | NoDomainsAllowed
  | DomainNotAllowed string "string list"
  | HeadersFetchFailed nat string
  | SizeExceededPredeclared Number int
  | FetchFailed nat string
  | EmptyBody
  | SizeExceededStreaming int int
  | AbortError
  | AbortedWithReason string
  | TimeoutOrAborted
  | NetworkError string
  | ClientNotInitialized
  | UploadAborted
  | PrivateKeyRequired
  | DelegationRequired
  | InitFailed string
  | GatewayUrlNotSet
  | GatewayError nat string
  | BlockNotFound cid
  | InvalidPath string
  | LibraryError string

subsection \<open>String primitives of the platform\<close>

text \<open>
  \<open>String.prototype.toLowerCase\<close> on the ASCII range (host names produced by the
  URL parser are ASCII), \<open>endsWith\<close>, \<open>Array.prototype.includes\<close> and the
  truthiness of a string (\<open>''''\<close> is falsy).
\<close>

definition lowerChar :: "char \<Rightarrow> char" where
  "lowerChar c =
     (case map_of (zip ''ABCDEFGHIJKLMNOPQRSTUVWXYZ'' ''abcdefghijklmnopqrstuvwxyz'') c of
        None \<Rightarrow> c
      | Some l \<Rightarrow> l)"

definition toLowerCase :: "string \<Rightarrow> string" where
  "toLowerCase s = map lowerChar s"

definition endsWith :: "string \<Rightarrow> string \<Rightarrow> bool" where
  "endsWith s t = (length t \<le> length s \<and> drop (length s - length t) s = t)"

definition arrayIncludes :: "'a list \<Rightarrow> 'a \<Rightarrow> bool" where
  "arrayIncludes xs x = (x \<in> set xs)"

fun truthy :: "string option \<Rightarrow> bool" where
  "truthy None = False"
| "truthy (Some s) = (s \<noteq> [])"

subsection \<open>Types of storage/types.ts\<close>

record UrlUploadConfig =
  maxUrlFileSizeBytes :: int
  allowedUrlSchemes :: "string list"
  urlFetchTimeoutMs :: int
  allowAllUrlDomains :: bool
  allowedUrlDomains :: "string list option"

text \<open>
  The interface \<open>UploadFileFromUrl\<close> (lines 483-490) declares the fields \<open>name\<close>,
  \<open>url\<close> and, as the optional MIME type override, \<open>mimeTyp\<close>. The function
  \<open>fetchFileFromUrl\<close> reads the properties \<open>url\<close>, \<open>name\<close> and \<open>mimeType\<close> of its
  argument (line 211), and the upload tool builds its argument with a property
  \<open>mimeType\<close>. An object may carry a property that its interface does not declare,
  so the record has the three declared fields and the property \<open>mimeType\<close>, absent from
  an object that is built to the interface.
\<close>

record UploadFileFromUrl =
  name :: string
  url :: string
  mimeTyp :: "string option"
  mimeType :: "string option"

record UploadFile =
  ufName :: string
  content :: string

record File =
  fileName :: string
  fileBytes :: bytes
  fileType :: string

text \<open>
  \<open>new File([bits], name, {type})\<close>: the platform keeps a type of printable ASCII
  characters (U+0020 to U+007E) in lower case, and replaces any other type by the empty
  string.
\<close>

definition printableAscii :: "char \<Rightarrow> bool" where
  "printableAscii c = (32 \<le> (of_char c :: nat) \<and> (of_char c :: nat) \<le> 126)"

definition normalizeType :: "string \<Rightarrow> string" where
  "normalizeType t = (if list_all printableAscii t then toLowerCase t else [])"

definition newFile :: "bytes \<Rightarrow> string \<Rightarrow> string \<Rightarrow> File" where
  "newFile bits fname ftype =
     \<lparr>fileName = fname, fileBytes = bits, fileType = normalizeType ftype\<rparr>"

text \<open>The parts of a parsed \<open>URL\<close> object that the client reads.\<close>

record URL =
  protocol :: string
  hostname :: string
  origin :: string
  href :: string

section \<open>Policy checks of fetchFileFromUrl\<close>

text \<open>\<open>url.protocol.slice(0, -1)\<close>: the protocol without its trailing colon.\<close>

definition scheme :: "URL \<Rightarrow> string" where
  "scheme u = butlast (protocol u)"

text \<open>
  Lines 222-226. \<open>allowedUrlSchemes\<close> is a required array of the configuration and an
  array is truthy, so the guard \<open>urlConfig?.allowedUrlSchemes\<close> holds exactly when a
  configuration is passed.
\<close>

definition checkScheme :: "UrlUploadConfig option \<Rightarrow> URL \<Rightarrow> error option" where
  "checkScheme urlConfig u =
     (case urlConfig of
        None \<Rightarrow> None
      | Some c \<Rightarrow>
          if \<not> arrayIncludes (allowedUrlSchemes c) (scheme u)
          then Some (SchemeNotAllowed (scheme u) (allowedUrlSchemes c))
          else None)"

text \<open>The predicate passed to \<open>some\<close> at lines 235-238.\<close>

definition domainMatches :: "string \<Rightarrow> string \<Rightarrow> bool" where
  "domainMatches host allowedDomain =
     (host = toLowerCase allowedDomain \<or>
      endsWith host (CHR ''.'' # toLowerCase allowedDomain))"

text \<open>Lines 229-245.\<close>

definition checkDomain :: "UrlUploadConfig option \<Rightarrow> URL \<Rightarrow> error option" where
  "checkDomain urlConfig u =
     (case urlConfig of
        None \<Rightarrow> None
      | Some c \<Rightarrow>
          if allowAllUrlDomains c then None
          else
            (case allowedUrlDomains c of
               None \<Rightarrow> Some NoDomainsAllowed
             | Some ds \<Rightarrow>
                 if ds = [] then Some NoDomainsAllowed
                 else
                   let host = toLowerCase (hostname u);
                       isAllowed = list_ex (domainMatches host) ds
                   in if \<not> isAllowed then Some (DomainNotAllowed host ds) else None))"


section \<open>The platform around fetchFileFromUrl\<close>

text \<open>
  \<open>parseInt(s, 10)\<close>. Leading white space is skipped, a sign is read, then the longest
  run of decimal digits: \<open>mathInt\<close> is the integer they denote, and none when there
  is no digit. The result is the Number for that integer: \<open>NaN\<close> for none, otherwise
  the nearest double, ties to even, which is the integer itself up to \<open>2^53\<close> and an
  infinity from \<open>2^1024\<close> on. (The standard lets an implementation replace the digits
  after the 20th significant one by zeros; an integer up to \<open>2^53\<close> has at most 16.)
\<close>

definition isWhiteSpace :: "char \<Rightarrow> bool" where
  "isWhiteSpace c = (of_char c \<in> {9, 10, 11, 12, 13, 32, 160 :: nat})"

definition isDigit :: "char \<Rightarrow> bool" where
  "isDigit c = (48 \<le> (of_char c :: nat) \<and> (of_char c :: nat) \<le> 57)"

definition digitsValue :: "string \<Rightarrow> int" where
  "digitsValue ds = foldl (\<lambda>a c. 10 * a + (int (of_char c) - 48)) 0 ds"

definition mathInt :: "string \<Rightarrow> int option" where
  "mathInt s =
     (let t = dropWhile isWhiteSpace s;
          neg = (t \<noteq> [] \<and> hd t = CHR ''-'');
          r = (if t \<noteq> [] \<and> (hd t = CHR ''-'' \<or> hd t = CHR ''+'') then tl t else t);
          ds = takeWhile isDigit r
      in if ds = [] then None
         else Some (if neg then - digitsValue ds else digitsValue ds))"

text \<open>The number of binary digits of a natural number.\<close>

fun bitLength :: "nat \<Rightarrow> nat" where
  "bitLength n = (if n = 0 then 0 else Suc (bitLength (n div 2)))"

text \<open>
  The double nearest to a natural number, ties to even: the number itself below
  \<open>2^53\<close>; above, the 53 leading binary digits, rounded on the digits cut off; none
  when the result reaches \<open>2^1024\<close>.
\<close>

definition roundToDouble :: "nat \<Rightarrow> nat option" where
  "roundToDouble n =
     (if n < 2 ^ 53 then Some n
      else
        let e = bitLength n - 53;
            q = n div 2 ^ e;
            r = n mod 2 ^ e;
            up = (2 * r > 2 ^ e \<or> (2 * r = 2 ^ e \<and> odd q));
            m = (if up then q + 1 else q) * 2 ^ e
        in if m \<ge> 2 ^ 1024 then None else Some m)"

definition toNumber :: "int \<Rightarrow> Number" where
  "toNumber i =
     (case roundToDouble (nat \<bar>i\<bar>) of
        None \<Rightarrow> if i < 0 then NegInfinity else PosInfinity
      | Some m \<Rightarrow> Finite (if i < 0 then - int m else int m))"

definition parseInt :: "string \<Rightarrow> Number" where
  "parseInt s = (case mathInt s of None \<Rightarrow> NaN | Some i \<Rightarrow> toNumber i)"

text \<open>The comparison \<open>size > limit\<close> of a Number with an integer limit.\<close>

fun numberGreater :: "Number \<Rightarrow> int \<Rightarrow> bool" where
  "numberGreater NaN m = False"
| "numberGreater (Finite n) m = (n > m)"
| "numberGreater PosInfinity m = True"
| "numberGreater NegInfinity m = False"

text \<open>
  A response of \<open>fetch\<close>. The body is the sequence of results that successive
  \<open>reader.read()\<close> calls deliver before \<open>done\<close>; \<open>None\<close> is a null body.
\<close>

datatype ReadResult = Chunk bytes | ReadError string

record Response =
  ok :: bool
  status :: nat
  statusText :: string
  headers :: "string \<rightharpoonup> string"
  body :: "ReadResult list option"

datatype Method = HEAD | GET

text \<open>
  The reason with which a signal aborts. A pending \<open>fetch\<close> or \<open>read\<close> rejects with
  the reason of its signal: by default an error named AbortError; a signal of
  \<open>AbortSignal.timeout\<close> or one aborted with a value of the caller's gives another
  value, here with its name.
\<close>

datatype AbortReason = AbortErrorReason | OtherReason string

text \<open>
  An \<open>AbortSignal\<close>: whether it is aborted when the call starts, the suspension
  point of the call during which it fires later, if it does, and its reason. The
  suspension points of one \<open>fetchFileFromUrl\<close> call are numbered: 0 the HEAD request,
  1 the GET request, \<open>2 + i\<close> the \<open>i\<close>-th \<open>reader.read()\<close>.
\<close>

record AbortSignal =
  aborted :: bool
  abortsAt :: "nat option"
  reason :: AbortReason

text \<open>
  The world of one call: the URL parser, the answers of the server (\<open>Inl\<close> is a
  network failure with its message), and the suspension point during which the
  armed timeout elapses (\<open>None\<close>: the call ends first). When several fetches run
  at once and some fail, \<open>rejectsFirst\<close> tells which of the failures, counted in list
  order, comes first in time.
\<close>

record Net =
  parseURL :: "string \<Rightarrow> URL option"
  fetchHEAD :: "URL \<Rightarrow> string + Response"
  fetchGET :: "URL \<Rightarrow> string + Response"
  timeoutElapsesAt :: "nat option"
  rejectsFirst :: nat

definition firedBy :: "nat option \<Rightarrow> nat \<Rightarrow> bool" where
  "firedBy t k = (case t of None \<Rightarrow> False | Some j \<Rightarrow> j \<le> k)"

definition signalAborted :: "AbortSignal \<Rightarrow> nat \<Rightarrow> bool" where
  "signalAborted s k = (aborted s \<or> firedBy (abortsAt s) k)"

text \<open>
  Lines 248-257. \<open>controller.abort()\<close> is called by the timer, when one is armed, and
  by the listener that line 256 adds to the external signal (a listener added to a
  signal that is already aborted never runs).
\<close>

definition timeoutArmed :: "UrlUploadConfig option \<Rightarrow> bool" where
  "timeoutArmed urlConfig =
     (case urlConfig of None \<Rightarrow> False | Some c \<Rightarrow> urlFetchTimeoutMs c \<noteq> 0)"

definition controllerAborted :: "bool \<Rightarrow> Net \<Rightarrow> AbortSignal option \<Rightarrow> nat \<Rightarrow> bool" where
  "controllerAborted armed net signal k =
     ((armed \<and> firedBy (timeoutElapsesAt net) k) \<or>
      (case signal of
         None \<Rightarrow> False
       | Some s \<Rightarrow> \<not> aborted s \<and> firedBy (abortsAt s) k))"

text \<open>Line 254: \<open>const combinedSignal = signal || controller.signal\<close>.\<close>

definition combinedAborted :: "bool \<Rightarrow> Net \<Rightarrow> AbortSignal option \<Rightarrow> nat \<Rightarrow> bool" where
  "combinedAborted armed net signal k =
     (case signal of
        Some s \<Rightarrow> signalAborted s k
      | None \<Rightarrow> controllerAborted armed net signal k)"

text \<open>
  What a request or a read rejects with when the combined signal is aborted: the
  reason of the caller's signal when there is one, the default reason of the
  controller's signal otherwise.
\<close>

fun reasonError :: "AbortReason \<Rightarrow> error" where
  "reasonError AbortErrorReason = AbortError"
| "reasonError (OtherReason m) = AbortedWithReason m"

definition combinedReason :: "AbortSignal option \<Rightarrow> error" where
  "combinedReason signal = (case signal of Some s \<Rightarrow> reasonError (reason s) | None \<Rightarrow> AbortError)"

text \<open>\<open>fetch(url, {method, signal})\<close> rejects with the reason of its signal when it is aborted.\<close>

definition fetch ::
  "(URL \<Rightarrow> string + Response) \<Rightarrow> URL \<Rightarrow> bool \<Rightarrow> error \<Rightarrow> error + Response" where
  "fetch server u abortedNow rej =
     (if abortedNow then Inl rej
      else case server u of Inl m \<Rightarrow> Inl (NetworkError m) | Inr r \<Rightarrow> Inr r)"

section \<open>fetchFileFromUrl\<close>

text \<open>The guard \<open>urlConfig?.maxUrlFileSizeBytes\<close> of lines 272 and 312: the limit when truthy.\<close>

definition sizeLimit :: "UrlUploadConfig option \<Rightarrow> int option" where
  "sizeLimit urlConfig =
     (case urlConfig of
        None \<Rightarrow> None
      | Some c \<Rightarrow> if maxUrlFileSizeBytes c \<noteq> 0 then Some (maxUrlFileSizeBytes c) else None)"

text \<open>Lines 271-279.\<close>

definition predeclaredCheck :: "UrlUploadConfig option \<Rightarrow> string option \<Rightarrow> error option" where
  "predeclaredCheck urlConfig contentLength =
     (if truthy contentLength then
        (case sizeLimit urlConfig of
           None \<Rightarrow> None
         | Some m \<Rightarrow>
             (case contentLength of
                None \<Rightarrow> None
              | Some s \<Rightarrow>
                  if numberGreater (parseInt s) m
                  then Some (SizeExceededPredeclared (parseInt s) m)
                  else None))
      else None)"

text \<open>The operator \<open>||\<close> on an optional string with a string default.\<close>

definition jsOr :: "string option \<Rightarrow> string \<Rightarrow> string" where
  "jsOr a b = (case a of None \<Rightarrow> b | Some s \<Rightarrow> if s = [] then b else s)"

text \<open>Line 292.\<close>

definition resolveContentType :: "string option \<Rightarrow> string option \<Rightarrow> string" where
  "resolveContentType mime hdr = jsOr mime (jsOr hdr ''application/octet-stream'')"

definition byteLength :: "bytes list \<Rightarrow> nat" where
  "byteLength chunks = sum_list (map length chunks)"

text \<open>
  The loop of lines 305-319, at suspension point \<open>k\<close>, with the array \<open>chunks\<close> and
  the counter \<open>totalSize\<close>; \<open>ab\<close> tells whether the signal is aborted at a suspension
  point and \<open>rej\<close> is what a read rejects with then. The last argument is a ghost: the
  largest number of bytes held at once so far, counting the chunks in the array and the
  value just read.
\<close>

fun readLoop ::
  "(nat \<Rightarrow> bool) \<Rightarrow> error \<Rightarrow> int option \<Rightarrow> nat \<Rightarrow> ReadResult list \<Rightarrow> bytes list \<Rightarrow> int
   \<Rightarrow> nat \<Rightarrow> (error + bytes list) \<times> nat" where
  "readLoop ab rej lim k [] chunks totalSize h =
     (if ab k then (Inl rej, h) else (Inr chunks, h))"
| "readLoop ab rej lim k (ReadError m # rest) chunks totalSize h =
     (if ab k then (Inl rej, h) else (Inl (NetworkError m), h))"
| "readLoop ab rej lim k (Chunk v # rest) chunks totalSize h =
     (if ab k then (Inl rej, h)
      else
        let total' = totalSize + int (length v);
            h' = max h (byteLength chunks + length v)
        in (case lim of
              None \<Rightarrow> readLoop ab rej lim (Suc k) rest (chunks @ [v]) total' h'
            | Some m \<Rightarrow>
                if total' > m then (Inl (SizeExceededStreaming total' m), h')
                else readLoop ab rej lim (Suc k) rest (chunks @ [v]) total' h'))"

text \<open>
  The \<open>try\<close> block, lines 260-334: the result, the requests passed to \<open>fetch\<close> in
  order, and the ghost of \<open>readLoop\<close>.
\<close>

definition fetchBody ::
  "Net \<Rightarrow> URL \<Rightarrow> UploadFileFromUrl \<Rightarrow> UrlUploadConfig option \<Rightarrow> (nat \<Rightarrow> bool) \<Rightarrow> error
   \<Rightarrow> (error + File) \<times> Method list \<times> nat" where
  "fetchBody net u fileSpec urlConfig ab rej =
     (case fetch (fetchHEAD net) u (ab 0) rej of
        Inl e \<Rightarrow> (Inl e, [HEAD], 0)
      | Inr headResponse \<Rightarrow>
          if \<not> ok headResponse
          then (Inl (HeadersFetchFailed (status headResponse) (statusText headResponse)), [HEAD], 0)
          else
            (case predeclaredCheck urlConfig (headers headResponse ''content-length'') of
               Some e \<Rightarrow> (Inl e, [HEAD], 0)
             | None \<Rightarrow>
                 (case fetch (fetchGET net) u (ab 1) rej of
                    Inl e \<Rightarrow> (Inl e, [HEAD, GET], 0)
                  | Inr response \<Rightarrow>
                      if \<not> ok response
                      then (Inl (FetchFailed (status response) (statusText response)), [HEAD, GET], 0)
                      else
                        let contentType =
                              resolveContentType (mimeType fileSpec)
                                (headers response ''content-type'')
                        in (case body response of
                              None \<Rightarrow> (Inl EmptyBody, [HEAD, GET], 0)
                            | Some reads \<Rightarrow>
                                (case readLoop ab rej (sizeLimit urlConfig) 2 reads [] 0 0 of
                                   (Inl e, h) \<Rightarrow> (Inl e, [HEAD, GET], h)
                                 | (Inr chunks, h) \<Rightarrow>
                                     (Inr (newFile (concat chunks) (name fileSpec) contentType),
                                      [HEAD, GET], h))))))"

datatype Timer = NoTimer | Armed | Cleared

record FetchOutcome =
  result :: "error + File"
  requests :: "Method list"
  timer :: Timer
  held :: nat

text \<open>
  The \<open>catch\<close> clause, lines 336-340: an error named AbortError is replaced, any other
  is thrown on.
\<close>

fun catchAbort :: "error + File \<Rightarrow> error + File" where
  "catchAbort (Inl AbortError) = Inl TimeoutOrAborted"
| "catchAbort r = r"

text \<open>The \<open>finally\<close> clause, lines 341-345.\<close>

fun clearTimer :: "Timer \<Rightarrow> Timer" where
  "clearTimer Armed = Cleared"
| "clearTimer t = t"

text \<open>Lines 206-346. The checks before line 247 throw before a timer exists.\<close>

definition fetchFileFromUrl ::
  "Net \<Rightarrow> UploadFileFromUrl \<Rightarrow> UrlUploadConfig option \<Rightarrow> AbortSignal option \<Rightarrow> FetchOutcome" where
  "fetchFileFromUrl net fileSpec urlConfig signal =
     (case parseURL net (url fileSpec) of
        None \<Rightarrow>
          \<lparr>result = Inl (InvalidUrl (url fileSpec)), requests = [], timer = NoTimer, held = 0\<rparr>
      | Some u \<Rightarrow>
          (case checkScheme urlConfig u of
             Some e \<Rightarrow> \<lparr>result = Inl e, requests = [], timer = NoTimer, held = 0\<rparr>
           | None \<Rightarrow>
               (case checkDomain urlConfig u of
                  Some e \<Rightarrow> \<lparr>result = Inl e, requests = [], timer = NoTimer, held = 0\<rparr>
                | None \<Rightarrow>
                    let armed = timeoutArmed urlConfig;
                        timeoutId = (if armed then Armed else NoTimer);
                        ab = combinedAborted armed net signal;
                        rej = combinedReason signal
                    in (case fetchBody net u fileSpec urlConfig ab rej of
                          (r, reqs, h) \<Rightarrow>
                            \<lparr>result = catchAbort r, requests = reqs,
                             timer = clearTimer timeoutId, held = h\<rparr>))))"


section \<open>The client and its initialization\<close>

record StorageConfig =
  signer :: "string option"
  delegation :: "string option"
  gatewayUrl :: "URL option"

text \<open>
  The promise stored in \<open>this.initialized\<close> is represented by its state. The client
  stores at most one promise, so the field holds the current state of that promise.
\<close>

datatype Promise = Pending | Fulfilled | Rejected error

text \<open>
  The calls that reach the storage backend, and the point where the asynchronous
  body of lines 84-108 is suspended. Both are bookkeeping of the model: the first
  records the side effects, the second is the continuation of the \<open>await\<close>.
\<close>

datatype BackendCall = CreateCall | AddSpaceCall | UploadDirectoryCall "File list"

datatype InitTask = NotStarted | AwaitingCreate | AwaitingAddSpace | Finished

record StorachaClient =
  config :: StorageConfig
  initialized :: "Promise option"
  storage :: "string option"
  initTask :: InitTask
  backendCalls :: "BackendCall list"

text \<open>
  The URL constructor of the platform with a base, \<open>new URL(reference, base)\<close>. The
  client hands it a reference that starts with a slash; the platform answers with the
  origin of the base followed by the reference after its own parsing, which removes
  dot segments, percent-encodes characters and cuts a fragment off. It is a parameter
  of the worlds below.
\<close>

record Platform =
  newURL :: "string \<Rightarrow> URL \<Rightarrow> URL"

text \<open>
  What the backend answers. A thrown value is \<open>Thrown (Some m)\<close> for an \<open>Error\<close>
  with message \<open>m\<close> and \<open>Thrown None\<close> for any other value.
\<close>

datatype 'a Settled = Ok 'a | Thrown "string option"

record DirectoryEntryLink =
  entryName :: string
  entryCid :: cid

record Backend = Platform +
  createResult :: "string Settled"
  addSpaceResult :: "unit Settled"
  uploadDirectoryResult :: "File list \<Rightarrow> DirectoryEntryLink list \<times> cid Settled"

text \<open>The constructor, lines 60-66; the default gateway URL is a constant of config.ts.\<close>

definition newClient :: "URL \<Rightarrow> StorageConfig \<Rightarrow> StorachaClient" where
  "newClient defaultGatewayUrl cfg =
     \<lparr>config = cfg\<lparr>gatewayUrl :=
          (case gatewayUrl cfg of None \<Rightarrow> Some defaultGatewayUrl | Some g \<Rightarrow> Some g)\<rparr>,
      initialized = None, storage = None, initTask = NotStarted, backendCalls = []\<rparr>"

text \<open>
  What a call of \<open>initialize\<close> hands to its caller: the memoized promise, or a
  rejection of its own.
\<close>

datatype InitReturn = SharedPromise | Threw error

text \<open>
  Lines 71-111, up to the first \<open>await\<close>: the synchronous part of a call. The
  asynchronous body starts at once and calls \<open>Storage.create\<close> before it suspends.
\<close>

definition initialize :: "StorachaClient \<Rightarrow> InitReturn \<times> StorachaClient" where
  "initialize cl =
     (if initialized cl \<noteq> None then (SharedPromise, cl)
      else if signer (config cl) = None then (Threw PrivateKeyRequired, cl)
      else if delegation (config cl) = None then (Threw DelegationRequired, cl)
      else (SharedPromise,
            cl\<lparr>initialized := Some Pending, initTask := AwaitingCreate,
               backendCalls := backendCalls cl @ [CreateCall]\<rparr>))"

text \<open>Lines 105-106.\<close>

definition initFailure :: "string option \<Rightarrow> error" where
  "initFailure thrown =
     InitFailed (''Failed to initialize storage client: '' @
       (case thrown of Some m \<Rightarrow> m | None \<Rightarrow> ''Unknown error''))"

text \<open>
  The awaited backend operation settles and the body of lines 84-108 runs to its
  next suspension point or to its end.
\<close>

definition backendSettles :: "Backend \<Rightarrow> StorachaClient \<Rightarrow> StorachaClient" where
  "backendSettles be cl =
     (case initTask cl of
        AwaitingCreate \<Rightarrow>
          (case createResult be of
             Ok h \<Rightarrow>
               cl\<lparr>storage := Some h, initTask := AwaitingAddSpace,
                  backendCalls := backendCalls cl @ [AddSpaceCall]\<rparr>
           | Thrown t \<Rightarrow>
               cl\<lparr>initialized := Some (Rejected (initFailure t)), initTask := Finished\<rparr>)
      | AwaitingAddSpace \<Rightarrow>
          (case addSpaceResult be of
             Ok _ \<Rightarrow> cl\<lparr>initialized := Some Fulfilled, initTask := Finished\<rparr>
           | Thrown t \<Rightarrow>
               cl\<lparr>initialized := Some (Rejected (initFailure t)), initTask := Finished\<rparr>)
      | NotStarted \<Rightarrow> cl
      | Finished \<Rightarrow> cl)"

text \<open>
  A schedule interleaves calls of \<open>initialize\<close> with the settling of the pending
  backend operation in any order; \<open>run\<close> returns what each call got, in call order.
\<close>

datatype Event = CallInitialize | BackendSettles

fun run :: "Backend \<Rightarrow> Event list \<Rightarrow> StorachaClient \<Rightarrow> InitReturn list \<times> StorachaClient" where
  "run be [] cl = ([], cl)"
| "run be (CallInitialize # evs) cl =
     (case initialize cl of
        (r, cl') \<Rightarrow> (case run be evs cl' of (rs, cl'') \<Rightarrow> (r # rs, cl'')))"
| "run be (BackendSettles # evs) cl = run be evs (backendSettles be cl)"

text \<open>The outcome a caller observes, once the client is in state \<open>cl\<close>.\<close>

fun observed :: "StorachaClient \<Rightarrow> InitReturn \<Rightarrow> Promise option" where
  "observed cl SharedPromise = initialized cl"
| "observed cl (Threw e) = Some (Rejected e)"

text \<open>
  The states a client passes through: the task, the stored promise and the backend
  calls made so far agree.
\<close>

definition consistent :: "StorachaClient \<Rightarrow> bool" where
  "consistent cl =
     (case initTask cl of
        NotStarted \<Rightarrow> initialized cl = None \<and> backendCalls cl = []
      | AwaitingCreate \<Rightarrow> initialized cl = Some Pending \<and> backendCalls cl = [CreateCall]
      | AwaitingAddSpace \<Rightarrow>
          initialized cl = Some Pending \<and> backendCalls cl = [CreateCall, AddSpaceCall]
      | Finished \<Rightarrow>
          (initialized cl = Some Fulfilled \<or> (\<exists>e. initialized cl = Some (Rejected e))) \<and>
          (backendCalls cl = [CreateCall] \<or> backendCalls cl = [CreateCall, AddSpaceCall]))"

text \<open>The state that the specification calls Ready.\<close>

definition ready :: "StorachaClient \<Rightarrow> bool" where
  "ready cl = (initialized cl = Some Fulfilled)"

section \<open>Uploads\<close>

record UploadOptions =
  signal :: "AbortSignal option"
  retries :: "nat option"
  publishToFilecoin :: "bool option"

record UploadResult =
  root :: cid
  resultUrl :: URL
  files :: "string \<rightharpoonup> cid"

text \<open>Lines 141-146.\<close>

definition getGatewayUrl :: "StorachaClient \<Rightarrow> error + URL" where
  "getGatewayUrl cl =
     (case gatewayUrl (config cl) of None \<Rightarrow> Inl GatewayUrlNotSet | Some g \<Rightarrow> Inr g)"

text \<open>The callback of lines 359-363, applied to the entries in the order reported.\<close>

definition collectEntries :: "DirectoryEntryLink list \<Rightarrow> (string \<rightharpoonup> cid)" where
  "collectEntries entries =
     foldl (\<lambda>m e. if entryName e \<noteq> [] then m(entryName e \<mapsto> entryCid e) else m)
       Map.empty entries"

text \<open>
  Lines 351-371. The options handed on to the backend (retries, signal, piece hasher)
  are part of what the backend answers.
\<close>

definition performUpload ::
  "Backend \<Rightarrow> StorachaClient \<Rightarrow> File list \<Rightarrow> UploadOptions
   \<Rightarrow> (error + UploadResult) \<times> StorachaClient" where
  "performUpload be cl fileObjects options =
     (let cl' = cl\<lparr>backendCalls := backendCalls cl @ [UploadDirectoryCall fileObjects]\<rparr>
      in case uploadDirectoryResult be fileObjects of
           (entries, Thrown t) \<Rightarrow>
             (Inl (LibraryError (case t of Some m \<Rightarrow> m | None \<Rightarrow> [])), cl')
         | (entries, Ok r) \<Rightarrow>
             (case getGatewayUrl cl of
                Inl e \<Rightarrow> (Inl e, cl')
              | Inr g \<Rightarrow>
                  (Inr \<lparr>root = r, resultUrl = newURL be (''/ipfs/'' @ r) g,
                        files = collectEntries entries\<rparr>, cl')))"

text \<open>\<open>options.signal?.aborted\<close>.\<close>

definition signalIsAborted :: "UploadOptions \<Rightarrow> bool" where
  "signalIsAborted options = (case signal options of None \<Rightarrow> False | Some s \<Rightarrow> aborted s)"

text \<open>\<open>files.map\<close> with a callback that may throw: the first failure ends the map.\<close>

fun mapResult :: "('a \<Rightarrow> error + 'b) \<Rightarrow> 'a list \<Rightarrow> error + 'b list" where
  "mapResult f [] = Inr []"
| "mapResult f (x # xs) =
     (case f x of
        Inl e \<Rightarrow> Inl e
      | Inr y \<Rightarrow> (case mapResult f xs of Inl e \<Rightarrow> Inl e | Inr ys \<Rightarrow> Inr (y # ys)))"

text \<open>
  Lines 156-171. \<open>base64ToBytes\<close> belongs to utils.ts and is a parameter: \<open>None\<close> when
  it throws.
\<close>

definition uploadFiles ::
  "Backend \<Rightarrow> (string \<Rightarrow> bytes option) \<Rightarrow> StorachaClient \<Rightarrow> UploadFile list \<Rightarrow> UploadOptions
   \<Rightarrow> (error + UploadResult) \<times> StorachaClient" where
  "uploadFiles be base64ToBytes cl fs options =
     (if initialized cl = None \<or> storage cl = None then (Inl ClientNotInitialized, cl)
      else if signalIsAborted options then (Inl UploadAborted, cl)
      else
        (case mapResult
                (\<lambda>f. case base64ToBytes (content f) of
                        None \<Rightarrow> Inl (LibraryError ''invalid base64'')
                      | Some b \<Rightarrow> Inr (newFile b (ufName f) []))
                fs of
           Inl e \<Rightarrow> (Inl e, cl)
         | Inr fileObjects \<Rightarrow> performUpload be cl fileObjects options))"

text \<open>
  \<open>Promise.all\<close> over promises that have all been started: the values in list order
  when every one is fulfilled, otherwise the rejection that comes first in time, which
  the world picks among the rejections (the first in list order when the pick is out
  of range).
\<close>

definition promiseAll :: "nat \<Rightarrow> (error + 'a) list \<Rightarrow> error + 'a list" where
  "promiseAll pick outcomes =
     (case [e. Inl e \<leftarrow> outcomes] of
        [] \<Rightarrow> Inr [v. Inr v \<leftarrow> outcomes]
      | e # es \<Rightarrow> Inl (if pick < length (e # es) then (e # es) ! pick else e))"

text \<open>Lines 179-201. Every fetch is started and runs to its end.\<close>

definition uploadFilesFromUrls ::
  "Backend \<Rightarrow> Net \<Rightarrow> StorachaClient \<Rightarrow> UploadFileFromUrl list \<Rightarrow> UploadOptions
   \<Rightarrow> UrlUploadConfig option \<Rightarrow> (error + UploadResult) \<times> StorachaClient" where
  "uploadFilesFromUrls be net cl fs options urlConfig =
     (if initialized cl = None \<or> storage cl = None then (Inl ClientNotInitialized, cl)
      else if signalIsAborted options then (Inl UploadAborted, cl)
      else
        (case promiseAll (rejectsFirst net)
                (map (\<lambda>fileSpec. result (fetchFileFromUrl net fileSpec urlConfig (signal options)))
                   fs) of
           Inl e \<Rightarrow> (Inl e, cl)
         | Inr fileObjects \<Rightarrow> performUpload be cl fileObjects options))"


section \<open>Retrieval\<close>

record Resource =
  resProtocol :: string
  resCid :: cid
  pathname :: string

text \<open>
  Modelled from the spec: \<open>parseIpfsPath\<close> of storage/utils.ts, which is not among
  the sources. Section 4.1 of the specification gives three accepted forms in priority
  order, \<open><identifier>/<rest>\<close>, \<open>/ipfs/<identifier>/<rest>\<close> and
  \<open>ipfs://<identifier>/<rest>\<close>; the pathname of the result is a slash followed by the
  remainder, unchanged; an input of no form fails with InvalidPath. Whether a string
  is a structurally valid content identifier is decided by the library
  (\<open>CID.parse\<close>) and is the parameter \<open>validCid\<close>.
\<close>

definition splitAtSlash :: "string \<Rightarrow> (string \<times> string) option" where
  "splitAtSlash s =
     (if CHR ''/'' \<in> set s
      then Some (takeWhile (\<lambda>c. c \<noteq> CHR ''/'') s, tl (dropWhile (\<lambda>c. c \<noteq> CHR ''/'') s))
      else None)"

definition parseForm :: "(string \<Rightarrow> bool) \<Rightarrow> string \<Rightarrow> Resource option" where
  "parseForm validCid s =
     (case splitAtSlash s of
        None \<Rightarrow> None
      | Some (i, rest) \<Rightarrow>
          if validCid i
          then Some \<lparr>resProtocol = ''ipfs:'', resCid = i, pathname = CHR ''/'' # rest\<rparr>
          else None)"

definition stripPrefix :: "string \<Rightarrow> string \<Rightarrow> string option" where
  "stripPrefix p s = (if take (length p) s = p then Some (drop (length p) s) else None)"

definition parsePrefixed :: "(string \<Rightarrow> bool) \<Rightarrow> string \<Rightarrow> string \<Rightarrow> Resource option" where
  "parsePrefixed validCid p s =
     (case stripPrefix p s of None \<Rightarrow> None | Some t \<Rightarrow> parseForm validCid t)"

text \<open>
  Modelled from the spec: \<open>parseIpfsPath\<close> (storage/utils.ts is missing), the three
  forms of section 4.1 tried in their priority order.
\<close>

definition parseIpfsPath :: "(string \<Rightarrow> bool) \<Rightarrow> string \<Rightarrow> error + Resource" where
  "parseIpfsPath validCid path =
     (case parseForm validCid path of
        Some r \<Rightarrow> Inr r
      | None \<Rightarrow>
          (case parsePrefixed validCid ''/ipfs/'' path of
             Some r \<Rightarrow> Inr r
           | None \<Rightarrow>
               (case parsePrefixed validCid ''ipfs://'' path of
                  Some r \<Rightarrow> Inr r
                | None \<Rightarrow> Inl (InvalidPath path))))"

text \<open>
  The exporter of the library pulls blocks through the \<open>get\<close> callback it is given.
  What it does with them is a parameter: a tree that either ends with the exported
  content, fails with a message of its own, or asks for a block and continues with
  its bytes. An exception of
  the callback ends the export, as it does for an awaited call.
\<close>

datatype 'a Pull = Done 'a | Fail string | Need cid "bytes \<Rightarrow> 'a Pull"

primrec runPull :: "(cid \<Rightarrow> error + bytes) \<Rightarrow> 'a Pull \<Rightarrow> error + 'a" where
  "runPull get (Done a) = Inr a"
| "runPull get (Fail m) = Inl (LibraryError m)"
| "runPull get (Need c k) = (case get c of Inl e \<Rightarrow> Inl e | Inr b \<Rightarrow> runPull get (k b))"

text \<open>The identifiers the export asks for, in order (a ghost of \<open>runPull\<close>).\<close>

primrec asked :: "(cid \<Rightarrow> error + bytes) \<Rightarrow> 'a Pull \<Rightarrow> cid list" where
  "asked get (Done a) = []"
| "asked get (Fail m) = []"
| "asked get (Need c k) = c # (case get c of Inl e \<Rightarrow> [] | Inr b \<Rightarrow> asked get (k b))"

text \<open>The callback of lines 396-400 over the decoded archive.\<close>

definition blockGet :: "(cid \<rightharpoonup> bytes) \<Rightarrow> cid \<Rightarrow> error + bytes" where
  "blockGet reader c = (case reader c of None \<Rightarrow> Inl (BlockNotFound c) | Some b \<Rightarrow> Inr b)"

text \<open>\<open>response.arrayBuffer()\<close>: the whole body, or the error of the stream.\<close>

fun drain :: "ReadResult list \<Rightarrow> error + bytes" where
  "drain [] = Inr []"
| "drain (ReadError m # rest) = Inl (NetworkError m)"
| "drain (Chunk v # rest) = (case drain rest of Inl e \<Rightarrow> Inl e | Inr b \<Rightarrow> Inr (v @ b))"

definition arrayBuffer :: "Response \<Rightarrow> error + bytes" where
  "arrayBuffer r = (case body r of None \<Rightarrow> Inr [] | Some reads \<Rightarrow> drain reads)"

text \<open>
  The world of \<open>retrieve\<close>: the gateway, the archive decoder \<open>CarReader.fromBytes\<close>
  (\<open>Inl\<close> is the message of a failure), the exporter, and \<open>streamToBase64\<close> of
  utils.ts.
\<close>

record RetrieveEnv = Platform +
  validCid :: "string \<Rightarrow> bool"
  gatewayFetch :: "string \<Rightarrow> string + Response"
  carFromBytes :: "bytes \<Rightarrow> string + (cid \<rightharpoonup> bytes)"
  exporter :: "string \<Rightarrow> bytes Pull"
  streamToBase64 :: "bytes \<Rightarrow> bool \<Rightarrow> string"

record RetrieveOptions =
  useMultiformatBase64 :: "bool option"

record RetrieveResult =
  data :: string
  type :: "string option"

text \<open>
  Lines 380-412: the result and the URLs handed to \<open>fetch\<close>, by their \<open>href\<close>. The
  export is drained before the result is built, so its blocks are all pulled inside the
  call.
\<close>

definition retrieve ::
  "RetrieveEnv \<Rightarrow> StorachaClient \<Rightarrow> string \<Rightarrow> RetrieveOptions option
   \<Rightarrow> (error + RetrieveResult) \<times> string list" where
  "retrieve env cl filepath options =
     (case parseIpfsPath (validCid env) filepath of
        Inl e \<Rightarrow> (Inl e, [])
      | Inr resource \<Rightarrow>
          let pathWithCid = resCid resource @ pathname resource
          in (case getGatewayUrl cl of
                Inl e \<Rightarrow> (Inl e, [])
              | Inr g \<Rightarrow>
                  let target = href (newURL env (''/ipfs/'' @ pathWithCid @ ''?format=car'') g)
                  in (case gatewayFetch env target of
                        Inl m \<Rightarrow> (Inl (NetworkError m), [target])
                      | Inr response \<Rightarrow>
                          if \<not> ok response
                          then (Inl (GatewayError (status response) (statusText response)),
                                [target])
                          else
                            (case arrayBuffer response of
                               Inl e \<Rightarrow> (Inl e, [target])
                             | Inr bs \<Rightarrow>
                                 (case carFromBytes env bs of
                                    Inl m \<Rightarrow> (Inl (LibraryError m), [target])
                                  | Inr reader \<Rightarrow>
                                      (case runPull (blockGet reader) (exporter env pathWithCid) of
                                         Inl e \<Rightarrow> (Inl e, [target])
                                       | Inr exported \<Rightarrow>
                                           let useMultiformat =
                                                 (case options of
                                                    None \<Rightarrow> False
                                                  | Some opts \<Rightarrow>
                                                      (case useMultiformatBase64 opts of
                                                         None \<Rightarrow> False
                                                       | Some b \<Rightarrow> b));
                                               contentType = headers response ''content-type''
                                           in (Inr \<lparr>data = streamToBase64 env exported useMultiformat,
                                                     type = (if truthy contentType
                                                             then contentType else None)\<rparr>,
                                               [target])))))))"


section \<open>Concrete inputs\<close>

text \<open>
  A server that answers one URL, with a declared content length \<open>cl\<close>, a declared
  content type \<open>ct\<close> and a body delivered in the chunks \<open>vs\<close>; the timeout, when
  armed, elapses during suspension point \<open>t\<close>.
\<close>

definition demoUrl :: URL where
  "demoUrl =
     \<lparr>protocol = ''https:'', hostname = ''cdn.example.com'',
      origin = ''https://cdn.example.com'', href = ''https://cdn.example.com/a.bin''\<rparr>"

definition demoHeaders :: "string option \<Rightarrow> string option \<Rightarrow> (string \<rightharpoonup> string)" where
  "demoHeaders cl ct =
     (\<lambda>h. if h = ''content-length'' then cl else if h = ''content-type'' then ct else None)"

definition demoNet :: "string option \<Rightarrow> string option \<Rightarrow> bytes list \<Rightarrow> nat option \<Rightarrow> Net" where
  "demoNet cl ct vs t =
     \<lparr>parseURL = (\<lambda>s. if s = ''https://cdn.example.com/a.bin'' then Some demoUrl else None),
      fetchHEAD = (\<lambda>u. Inr \<lparr>ok = True, status = 200, statusText = ''OK'',
                            headers = demoHeaders cl ct, body = None\<rparr>),
      fetchGET = (\<lambda>u. Inr \<lparr>ok = True, status = 200, statusText = ''OK'',
                           headers = demoHeaders cl ct, body = Some (map Chunk vs)\<rparr>),
      timeoutElapsesAt = t, rejectsFirst = 0\<rparr>"

definition demoConfig :: "int \<Rightarrow> int \<Rightarrow> UrlUploadConfig" where
  "demoConfig maxBytes timeoutMs =
     \<lparr>maxUrlFileSizeBytes = maxBytes, allowedUrlSchemes = [''https''],
      urlFetchTimeoutMs = timeoutMs, allowAllUrlDomains = False,
      allowedUrlDomains = Some [''Example.COM'']\<rparr>"

text \<open>
  A file specification as the upload tool builds it, with the property \<open>mimeType\<close>,
  and one built to the interface \<open>UploadFileFromUrl\<close>, with its field \<open>mimeTyp\<close>.
\<close>

definition demoSpec :: "string option \<Rightarrow> UploadFileFromUrl" where
  "demoSpec mime =
     \<lparr>name = ''a.bin'', url = ''https://cdn.example.com/a.bin'', mimeTyp = None,
      mimeType = mime\<rparr>"

definition typedSpec :: "string option \<Rightarrow> UploadFileFromUrl" where
  "typedSpec mime =
     \<lparr>name = ''a.bin'', url = ''https://cdn.example.com/a.bin'', mimeTyp = mime,
      mimeType = None\<rparr>"

definition demoChunks :: "bytes list" where
  "demoChunks = [[1, 2, 3], [4, 5]]"

text \<open>A signal that never fires.\<close>

definition quietSignal :: AbortSignal where
  "quietSignal = \<lparr>aborted = False, abortsAt = None, reason = AbortErrorReason\<rparr>"

text \<open>
  A platform whose URL constructor answers as the URL parser does on a reference of
  letters, digits, dots and slashes with a query: the segments \<open>.\<close> and \<open>..\<close> of the
  path are resolved and the query is kept.
\<close>

fun segments :: "string \<Rightarrow> string list" where
  "segments [] = [[]]"
| "segments (c # cs) =
     (if c = CHR ''/'' then [] # segments cs
      else (case segments cs of [] \<Rightarrow> [[c]] | s # ss \<Rightarrow> (c # s) # ss))"

fun dotFree :: "string list \<Rightarrow> string list \<Rightarrow> string list" where
  "dotFree [] out = rev out"
| "dotFree (s # ss) out =
     (if s = ''..'' then
        (if ss = [] then rev ([] # tl out) else dotFree ss (tl out))
      else if s = ''.'' then
        (if ss = [] then rev ([] # out) else dotFree ss out)
      else dotFree ss (s # out))"

definition demoNewURL :: "string \<Rightarrow> URL \<Rightarrow> URL" where
  "demoNewURL reference base =
     base\<lparr>href :=
       origin base @
       concat (map (\<lambda>s. CHR ''/'' # s)
         (dotFree (tl (segments (takeWhile (\<lambda>c. c \<noteq> CHR ''?'') reference))) [])) @
       dropWhile (\<lambda>c. c \<noteq> CHR ''?'') reference\<rparr>"

text \<open>A gateway, two storage configurations and two backends.\<close>

definition demoGateway :: URL where
  "demoGateway =
     \<lparr>protocol = ''https:'', hostname = ''gw.example'', origin = ''https://gw.example'',
      href = ''https://gw.example/''\<rparr>"

definition demoStorageConfig :: StorageConfig where
  "demoStorageConfig = \<lparr>signer = Some ''key'', delegation = Some ''proof'', gatewayUrl = None\<rparr>"

definition noSignerConfig :: StorageConfig where
  "noSignerConfig = \<lparr>signer = None, delegation = Some ''proof'', gatewayUrl = None\<rparr>"

definition goodBackend :: Backend where
  "goodBackend =
     \<lparr>newURL = demoNewURL, createResult = Ok ''client'', addSpaceResult = Ok (),
      uploadDirectoryResult = (\<lambda>fs. (map (\<lambda>f. \<lparr>entryName = fileName f, entryCid = ''bafyfile''\<rparr>) fs,
                                    Ok ''bafyroot''))\<rparr>"

definition addSpaceFailsBackend :: Backend where
  "addSpaceFailsBackend = goodBackend\<lparr>addSpaceResult := Thrown (Some ''space rejected'')\<rparr>"

text \<open>
  An archive with the block of a file and not the block it links to, and an exporter
  that reads the root block and then the linked one.
\<close>

definition demoValidCid :: "string \<Rightarrow> bool" where
  "demoValidCid i = (take 4 i = ''bafy'' \<and> CHR ''/'' \<notin> set i)"

definition demoExporter :: "string \<Rightarrow> bytes Pull" where
  "demoExporter p = Need ''bafy1'' (\<lambda>b1. Need ''bafy2'' (\<lambda>b2. Done (b1 @ b2)))"

definition demoRetrieveEnv :: "bool \<Rightarrow> (cid \<rightharpoonup> bytes) \<Rightarrow> RetrieveEnv" where
  "demoRetrieveEnv gatewayOk archive =
     \<lparr>newURL = demoNewURL, validCid = demoValidCid,
      gatewayFetch = (\<lambda>t. Inr \<lparr>ok = gatewayOk, status = (if gatewayOk then 200 else 404),
                               statusText = (if gatewayOk then ''OK'' else ''Not Found''),
                               headers = demoHeaders None None, body = Some []\<rparr>),
      carFromBytes = (\<lambda>b. Inr archive),
      exporter = demoExporter,
      streamToBase64 = (\<lambda>b m. map (\<lambda>w. CHR ''x'') b)\<rparr>"

definition truncatedArchive :: "cid \<rightharpoonup> bytes" where
  "truncatedArchive = [''bafy1'' \<mapsto> [1, 2]]"

definition completeArchive :: "cid \<rightharpoonup> bytes" where
  "completeArchive = [''bafy1'' \<mapsto> [1, 2], ''bafy2'' \<mapsto> [3]]"


section \<open>Facts about the string primitives and the loop\<close>

lemma endsWith_iff: "endsWith s t \<longleftrightarrow> (\<exists>p. s = p @ t)"
proof
  assume "endsWith s t"
  then have "s = take (length s - length t) s @ t"
    by (metis append_take_drop_id endsWith_def)
  then show "\<exists>p. s = p @ t" ..
next
  assume "\<exists>p. s = p @ t"
  then show "endsWith s t" by (auto simp: endsWith_def)
qed

lemma catchAbort_Inr [simp]: "(catchAbort r = Inr f) = (r = Inr f)"
  by (cases r rule: catchAbort.cases) auto

lemma catchAbort_Inl: "catchAbort r = Inl e \<Longrightarrow> e \<noteq> TimeoutOrAborted \<Longrightarrow> r = Inl e"
  by (cases r rule: catchAbort.cases) auto

lemma clearTimer_not_Armed: "clearTimer t \<noteq> Armed"
  by (cases t) auto

lemma byteLength_snoc [simp]: "byteLength (chunks @ [v]) = byteLength chunks + length v"
  by (simp add: byteLength_def)

lemma length_concat_byteLength: "length (concat chunks) = byteLength chunks"
  by (simp add: byteLength_def length_concat)

lemma fetchFileFromUrl_reached:
  assumes "parseURL net (url fs) = Some u" "checkScheme cfg u = None" "checkDomain cfg u = None"
  shows "fetchFileFromUrl net fs cfg sig =
     (case fetchBody net u fs cfg (combinedAborted (timeoutArmed cfg) net sig)
             (combinedReason sig) of
        (r, reqs, h) \<Rightarrow>
          \<lparr>result = catchAbort r, requests = reqs,
           timer = clearTimer (if timeoutArmed cfg then Armed else NoTimer), held = h\<rparr>)"
  using assms by (simp add: fetchFileFromUrl_def Let_def)

text \<open>On every exit path the timer is either never armed or cleared.\<close>

lemma timer_never_left_armed: "timer (fetchFileFromUrl net fs cfg sig) \<noteq> Armed"
  by (auto simp: fetchFileFromUrl_def Let_def clearTimer_not_Armed
      split: option.splits prod.splits)

text \<open>Up to \<open>2^53\<close> in absolute value an integer is its own Number.\<close>

lemma roundToDouble_exact: "n \<le> 2 ^ 53 \<Longrightarrow> roundToDouble n = Some n"
proof (cases "n < 2 ^ 53")
  case True
  then show ?thesis by (simp add: roundToDouble_def)
next
  case False
  assume "n \<le> 2 ^ 53"
  then have n: "n = 9007199254740992" using False by simp
  show ?thesis unfolding n by (simp add: roundToDouble_def Let_def)
qed

lemma toNumber_exact: "\<bar>i\<bar> \<le> 2 ^ 53 \<Longrightarrow> toNumber i = Finite i"
proof -
  assume a: "\<bar>i\<bar> \<le> 2 ^ 53"
  have "nat \<bar>i\<bar> \<le> 2 ^ 53" using a by (simp add: nat_le_iff)
  then have "roundToDouble (nat \<bar>i\<bar>) = Some (nat \<bar>i\<bar>)" by (rule roundToDouble_exact)
  then show ?thesis by (simp add: toNumber_def)
qed

lemma mathInt_nonempty: "mathInt s = Some v \<Longrightarrow> s \<noteq> []"
  by (auto simp: mathInt_def Let_def)

lemma predeclaredCheck_exceeds:
  assumes "maxUrlFileSizeBytes c \<noteq> 0" "mathInt s = Some v" "\<bar>v\<bar> \<le> 2 ^ 53"
    "v > maxUrlFileSizeBytes c"
  shows "predeclaredCheck (Some c) (Some s) =
           Some (SizeExceededPredeclared (Finite v) (maxUrlFileSizeBytes c))"
proof -
  have ne: "s \<noteq> []" using assms(2) by (rule mathInt_nonempty)
  have p: "parseInt s = Finite v"
    using assms(2,3) by (simp add: parseInt_def toNumber_exact)
  show ?thesis using ne p assms(1,4) by (simp add: predeclaredCheck_def sizeLimit_def)
qed

lemma predeclaredCheck_absent: "predeclaredCheck cfg None = None"
  by (simp add: predeclaredCheck_def)

lemma predeclaredCheck_no_limit: "sizeLimit cfg = None \<Longrightarrow> predeclaredCheck cfg h = None"
  by (simp add: predeclaredCheck_def)

lemma readLoop_not_predeclared:
  "rej \<noteq> SizeExceededPredeclared a b \<Longrightarrow>
     fst (readLoop ab rej lim k reads chunks t h) \<noteq> Inl (SizeExceededPredeclared a b)"
  by (induction ab rej lim k reads chunks t h rule: readLoop.induct)
     (auto simp: Let_def split: option.splits)

lemma readLoop_not_predeclaredD:
  "readLoop ab rej lim k reads chunks t h = (Inl (SizeExceededPredeclared a b), h') \<Longrightarrow>
     rej \<noteq> SizeExceededPredeclared a b \<Longrightarrow> False"
  using readLoop_not_predeclared [of rej a b ab lim k reads chunks t h] by simp

lemma combinedReason_not_predeclared: "combinedReason sig \<noteq> SizeExceededPredeclared a b"
proof (cases sig)
  case None
  then show ?thesis by (simp add: combinedReason_def)
next
  case (Some s)
  then show ?thesis by (cases "reason s") (simp_all add: combinedReason_def)
qed

text \<open>With a limit the array never holds more than the limit.\<close>

lemma readLoop_bounded:
  assumes "totalSize = int (byteLength chunks)" "totalSize \<le> m" "h \<le> nat m + B"
    "\<forall>v. Chunk v \<in> set reads \<longrightarrow> length v \<le> B"
  shows "snd (readLoop ab rej (Some m) k reads chunks totalSize h) \<le> nat m + B \<and>
         (\<forall>cs. fst (readLoop ab rej (Some m) k reads chunks totalSize h) = Inr cs \<longrightarrow>
            int (byteLength cs) \<le> m)"
  using assms
proof (induction ab rej "Some m" k reads chunks totalSize h rule: readLoop.induct)
  case (1 ab rej k chunks totalSize h)
  then show ?case by auto
next
  case (2 ab rej k m rest chunks totalSize h)
  then show ?case by auto
next
  case (3 ab rej k v rest chunks totalSize h)
  have vB: "length v \<le> B" using 3 by auto
  have hb: "max h (byteLength chunks + length v) \<le> nat m + B"
    using 3 vB by auto
  show ?case
  proof (cases "ab k")
    case True
    then show ?thesis using 3 by simp
  next
    case False
    show ?thesis
    proof (cases "totalSize + int (length v) > m")
      case True
      then show ?thesis using False hb by (simp add: Let_def)
    next
      case g: False
      have "snd (readLoop ab rej (Some m) (Suc k) rest (chunks @ [v]) (totalSize + int (length v))
                  (max h (byteLength chunks + length v))) \<le> nat m + B \<and>
            (\<forall>cs. fst (readLoop ab rej (Some m) (Suc k) rest (chunks @ [v]) (totalSize + int (length v))
                  (max h (byteLength chunks + length v))) = Inr cs \<longrightarrow> int (byteLength cs) \<le> m)"
        using 3 g False hb by (intro "3.hyps"(2)) (auto simp: Let_def)
      then show ?thesis using False g by (simp add: Let_def)
    qed
  qed
qed

text \<open>The loop on a body of chunks, with no cancellation.\<close>

lemma readLoop_chunks_ok:
  assumes "\<forall>j. \<not> ab j" "case lim of None \<Rightarrow> True | Some m \<Rightarrow> totalSize + int (byteLength vs) \<le> m"
  shows "fst (readLoop ab rej lim k (map Chunk vs) chunks totalSize h) = Inr (chunks @ vs)"
  using assms
proof (induction vs arbitrary: k chunks totalSize h)
  case Nil
  then show ?case by simp
next
  case (Cons v vs)
  have le: "case lim of None \<Rightarrow> True | Some m \<Rightarrow> totalSize + int (length v) + int (byteLength vs) \<le> m"
    using Cons.prems(2) by (auto simp: byteLength_def split: option.splits)
  have nle: "case lim of None \<Rightarrow> True | Some m \<Rightarrow> \<not> totalSize + int (length v) > m"
    using le by (auto split: option.splits)
  have "fst (readLoop ab rej lim (Suc k) (map Chunk vs) (chunks @ [v]) (totalSize + int (length v))
          (max h (byteLength chunks + length v))) = Inr ((chunks @ [v]) @ vs)"
    using Cons.prems(1) le by (intro Cons.IH) auto
  moreover have "\<not> ab k" using Cons.prems(1) by simp
  ultimately show ?case using nle by (auto simp: Let_def split: option.splits)
qed

lemma readLoop_chunks_exceed:
  assumes "\<forall>j. \<not> ab j" "totalSize \<le> m" "totalSize + int (byteLength vs) > m"
  shows "\<exists>j < length vs.
           fst (readLoop ab rej (Some m) k (map Chunk vs) chunks totalSize h) =
             Inl (SizeExceededStreaming (totalSize + int (byteLength (take (Suc j) vs))) m) \<and>
           totalSize + int (byteLength (take j vs)) \<le> m \<and>
           totalSize + int (byteLength (take (Suc j) vs)) > m"
  using assms
proof (induction vs arbitrary: k chunks totalSize h)
  case Nil
  then show ?case by (simp add: byteLength_def)
next
  case (Cons v vs)
  show ?case
  proof (cases "totalSize + int (length v) > m")
    case True
    have nab: "\<not> ab k" using Cons.prems(1) by simp
    have "fst (readLoop ab rej (Some m) k (map Chunk (v # vs)) chunks totalSize h) =
             Inl (SizeExceededStreaming (totalSize + int (byteLength (take (Suc 0) (v # vs)))) m)"
      using nab True by (simp add: Let_def byteLength_def)
    moreover have "totalSize + int (byteLength (take 0 (v # vs))) \<le> m"
      using Cons.prems(2) by (simp add: byteLength_def)
    moreover have "totalSize + int (byteLength (take (Suc 0) (v # vs))) > m"
      using True by (simp add: byteLength_def)
    ultimately show ?thesis by blast
  next
    case False
    have gt: "totalSize + int (length v) + int (byteLength vs) > m"
      using Cons.prems(3) by (simp add: byteLength_def)
    obtain j where j: "j < length vs"
      "fst (readLoop ab rej (Some m) (Suc k) (map Chunk vs) (chunks @ [v]) (totalSize + int (length v))
          (max h (byteLength chunks + length v))) =
         Inl (SizeExceededStreaming (totalSize + int (length v) + int (byteLength (take (Suc j) vs))) m)"
      "totalSize + int (length v) + int (byteLength (take j vs)) \<le> m"
      "totalSize + int (length v) + int (byteLength (take (Suc j) vs)) > m"
      using Cons.IH[OF Cons.prems(1) _ gt, of "Suc k" "chunks @ [v]" "max h (byteLength chunks + length v)"] False
      by auto
    have nab: "\<not> ab k" using Cons.prems(1) by simp
    have "Suc j < length (v # vs)" using j(1) by simp
    moreover have "fst (readLoop ab rej (Some m) k (map Chunk (v # vs)) chunks totalSize h) =
             Inl (SizeExceededStreaming (totalSize + int (byteLength (take (Suc (Suc j)) (v # vs)))) m)"
      using nab False j(2) by (simp add: Let_def byteLength_def add.assoc)
    moreover have "totalSize + int (byteLength (take (Suc j) (v # vs))) \<le> m"
      using j(3) by (simp add: byteLength_def)
    moreover have "totalSize + int (byteLength (take (Suc (Suc j)) (v # vs))) > m"
      using j(4) by (simp add: byteLength_def)
    ultimately show ?thesis by blast
  qed
qed

text \<open>The definitions unfolded when a concrete input is evaluated.\<close>

lemmas demo_defs = demoNet_def demoUrl_def demoHeaders_def demoConfig_def demoSpec_def
  typedSpec_def demoChunks_def quietSignal_def

lemmas fetch_defs = fetchFileFromUrl_def fetchBody_def fetch_def checkScheme_def checkDomain_def
  scheme_def arrayIncludes_def domainMatches_def toLowerCase_def lowerChar_def endsWith_def
  timeoutArmed_def combinedAborted_def controllerAborted_def signalAborted_def firedBy_def
  combinedReason_def predeclaredCheck_def sizeLimit_def parseInt_def mathInt_def toNumber_def
  roundToDouble_def isWhiteSpace_def isDigit_def digitsValue_def resolveContentType_def jsOr_def
  newFile_def normalizeType_def printableAscii_def byteLength_def Let_def

section \<open>Domain allow-list\<close>

text \<open>
  Claim C6. With \<open>allowAllUrlDomains\<close> false, the domain check passes exactly when the
  allow-list holds a domain that equals the host, both in lower case, or of which the
  host is a subdomain (the host ends with a dot followed by the domain); a sibling
  domain allows nothing; with an empty or absent list the fetch fails at once with the
  no-domains error, and a failed domain check ends the call before any request.
\<close>

theorem domain_allow_list:
  "\<not> allowAllUrlDomains c \<Longrightarrow>
     ((checkDomain (Some c) u = None) =
        (\<exists>ds. allowedUrlDomains c = Some ds \<and>
           (\<exists>d \<in> set ds. toLowerCase (hostname u) = toLowerCase d \<or>
              (\<exists>p. toLowerCase (hostname u) = p @ CHR ''.'' # toLowerCase d)))) \<and>
     (allowedUrlDomains c = None \<or> allowedUrlDomains c = Some [] \<longrightarrow>
        checkDomain (Some c) u = Some NoDomainsAllowed) \<and>
     (\<forall>e. parseURL net (url fs) = Some u \<and> checkScheme (Some c) u = None \<and>
          checkDomain (Some c) u = Some e \<longrightarrow>
          fetchFileFromUrl net fs (Some c) sig =
            \<lparr>result = Inl e, requests = [], timer = NoTimer, held = 0\<rparr>)"
proof (intro conjI)
  assume a: "\<not> allowAllUrlDomains c"
  show "(checkDomain (Some c) u = None) =
        (\<exists>ds. allowedUrlDomains c = Some ds \<and>
           (\<exists>d \<in> set ds. toLowerCase (hostname u) = toLowerCase d \<or>
              (\<exists>p. toLowerCase (hostname u) = p @ CHR ''.'' # toLowerCase d)))"
    using a
    by (auto simp: checkDomain_def Let_def list_ex_iff domainMatches_def endsWith_iff
        split: option.splits)
  show "allowedUrlDomains c = None \<or> allowedUrlDomains c = Some [] \<longrightarrow>
        checkDomain (Some c) u = Some NoDomainsAllowed"
    using a by (auto simp: checkDomain_def)
  show "\<forall>e. parseURL net (url fs) = Some u \<and> checkScheme (Some c) u = None \<and>
          checkDomain (Some c) u = Some e \<longrightarrow>
          fetchFileFromUrl net fs (Some c) sig =
            \<lparr>result = Inl e, requests = [], timer = NoTimer, held = 0\<rparr>"
    by (simp add: fetchFileFromUrl_def)
qed

theorem domain_allow_list_witness:
  "\<not> allowAllUrlDomains (demoConfig 1000 0) \<and>
   checkDomain (Some (demoConfig 1000 0)) demoUrl = None \<and>
   checkDomain (Some (demoConfig 1000 0)) (demoUrl\<lparr>hostname := ''example.com.evil.net''\<rparr>) \<noteq> None \<and>
   checkDomain (Some ((demoConfig 1000 0)\<lparr>allowedUrlDomains := Some [''x.b.com'']\<rparr>))
     (demoUrl\<lparr>hostname := ''a.b.com''\<rparr>) \<noteq> None \<and>
   checkDomain (Some ((demoConfig 1000 0)\<lparr>allowedUrlDomains := Some []\<rparr>)) demoUrl =
     Some NoDomainsAllowed"
proof -
  have h: "\<not> allowAllUrlDomains (demoConfig 1000 0)"
    by (simp add: demoConfig_def)
  have h': "\<not> allowAllUrlDomains ((demoConfig 1000 0)\<lparr>allowedUrlDomains := Some []\<rparr>)"
    by (simp add: demoConfig_def)
  have low: "toLowerCase ''Example.COM'' = ''example.com''"
    by (simp add: toLowerCase_def lowerChar_def)
  have 1: "checkDomain (Some (demoConfig 1000 0)) demoUrl = None"
    using domain_allow_list [OF h, of demoUrl]
    by (simp add: demoConfig_def demoUrl_def toLowerCase_def lowerChar_def)
  have 2: "checkDomain (Some (demoConfig 1000 0)) (demoUrl\<lparr>hostname := ''example.com.evil.net''\<rparr>) \<noteq> None"
    by (simp add: fetch_defs demo_defs)
  have 3: "checkDomain (Some ((demoConfig 1000 0)\<lparr>allowedUrlDomains := Some [''x.b.com'']\<rparr>))
     (demoUrl\<lparr>hostname := ''a.b.com''\<rparr>) \<noteq> None"
    by (simp add: fetch_defs demo_defs)
  have 4: "checkDomain (Some ((demoConfig 1000 0)\<lparr>allowedUrlDomains := Some []\<rparr>)) demoUrl =
     Some NoDomainsAllowed"
    using domain_allow_list [OF h', of demoUrl] by (simp add: demoConfig_def)
  show ?thesis using h 1 2 3 4 by blast
qed

section \<open>Predeclared size check\<close>

text \<open>
  Claim C4 (amended). Under a configuration whose \<open>maxUrlFileSizeBytes\<close> is not zero,
  when the HEAD request is answered with a success status: a declared content length
  of at most \<open>2^53\<close> in absolute value (which \<open>parseInt\<close> reads exactly) that is
  greater than the limit fails the call with the predeclared size error and only the
  HEAD request is issued; with no declared content length the check is skipped, the
  GET request is issued and the call does not fail with the predeclared size error.
\<close>

theorem predeclared_size_check:
  assumes "parseURL net (url fs) = Some u" "checkScheme (Some c) u = None"
    "checkDomain (Some c) u = None"
    "\<not> combinedAborted (timeoutArmed (Some c)) net sig 0"
    "fetchHEAD net u = Inr hr" "ok hr"
  shows "(maxUrlFileSizeBytes c \<noteq> 0 \<and> headers hr ''content-length'' = Some s \<and>
          mathInt s = Some v \<and> \<bar>v\<bar> \<le> 2 ^ 53 \<and> v > maxUrlFileSizeBytes c \<longrightarrow>
            result (fetchFileFromUrl net fs (Some c) sig) =
              Inl (SizeExceededPredeclared (Finite v) (maxUrlFileSizeBytes c)) \<and>
            requests (fetchFileFromUrl net fs (Some c) sig) = [HEAD]) \<and>
         (headers hr ''content-length'' = None \<longrightarrow>
            requests (fetchFileFromUrl net fs (Some c) sig) = [HEAD, GET] \<and>
            (\<forall>a b. result (fetchFileFromUrl net fs (Some c) sig) \<noteq>
                     Inl (SizeExceededPredeclared a b)))"
proof (intro conjI impI)
  assume h: "maxUrlFileSizeBytes c \<noteq> 0 \<and> headers hr ''content-length'' = Some s \<and>
          mathInt s = Some v \<and> \<bar>v\<bar> \<le> 2 ^ 53 \<and> v > maxUrlFileSizeBytes c"
  then have pc: "predeclaredCheck (Some c) (headers hr ''content-length'') =
      Some (SizeExceededPredeclared (Finite v) (maxUrlFileSizeBytes c))"
    using predeclaredCheck_exceeds [of c s v] by simp
  show "result (fetchFileFromUrl net fs (Some c) sig) =
              Inl (SizeExceededPredeclared (Finite v) (maxUrlFileSizeBytes c))"
    using assms pc by (simp add: fetchFileFromUrl_reached fetchBody_def fetch_def)
  show "requests (fetchFileFromUrl net fs (Some c) sig) = [HEAD]"
    using assms pc by (simp add: fetchFileFromUrl_reached fetchBody_def fetch_def)
next
  assume h: "headers hr ''content-length'' = None"
  show "requests (fetchFileFromUrl net fs (Some c) sig) = [HEAD, GET]"
    using assms h
    by (auto simp: fetchFileFromUrl_reached fetchBody_def fetch_def predeclaredCheck_absent Let_def
        split: sum.splits option.splits prod.splits)
  show "\<forall>a b. result (fetchFileFromUrl net fs (Some c) sig) \<noteq> Inl (SizeExceededPredeclared a b)"
  proof (intro allI notI)
    fix a b
    assume r: "result (fetchFileFromUrl net fs (Some c) sig) = Inl (SizeExceededPredeclared a b)"
    obtain r0 reqs h0 where fb:
      "fetchBody net u fs (Some c) (combinedAborted (timeoutArmed (Some c)) net sig)
         (combinedReason sig) = (r0, reqs, h0)"
      by (cases "fetchBody net u fs (Some c) (combinedAborted (timeoutArmed (Some c)) net sig)
                   (combinedReason sig)") auto
    have "catchAbort r0 = Inl (SizeExceededPredeclared a b)"
      using r assms(1-3) fb by (simp add: fetchFileFromUrl_reached)
    then have r0: "r0 = Inl (SizeExceededPredeclared a b)"
      by (rule catchAbort_Inl) simp
    have nr: "combinedReason sig \<noteq> SizeExceededPredeclared a b"
      by (rule combinedReason_not_predeclared)
    show False
      using fb r0 assms(4-6) h nr
      by (auto simp: fetchBody_def fetch_def predeclaredCheck_absent Let_def
          dest: readLoop_not_predeclaredD
          split: sum.splits option.splits prod.splits if_splits)
  qed
qed

theorem predeclared_size_check_witness:
  "result (fetchFileFromUrl (demoNet (Some ''2000'') None demoChunks None) (demoSpec None)
             (Some (demoConfig 1000 0)) None) = Inl (SizeExceededPredeclared (Finite 2000) 1000) \<and>
   requests (fetchFileFromUrl (demoNet (Some ''2000'') None demoChunks None) (demoSpec None)
             (Some (demoConfig 1000 0)) None) = [HEAD] \<and>
   requests (fetchFileFromUrl (demoNet None None demoChunks None) (demoSpec None)
             (Some (demoConfig 1000 0)) None) = [HEAD, GET]"
proof -
  let ?hr = "\<lambda>cl. \<lparr>ok = True, status = 200, statusText = ''OK'',
                   headers = demoHeaders cl None, body = None\<rparr>"
  have p: "\<And>cl. parseURL (demoNet cl None demoChunks None) (url (demoSpec None)) = Some demoUrl"
    by (simp add: demoNet_def demoSpec_def)
  have s: "checkScheme (Some (demoConfig 1000 0)) demoUrl = None"
    by (simp add: fetch_defs demo_defs)
  have d: "checkDomain (Some (demoConfig 1000 0)) demoUrl = None"
    by (simp add: fetch_defs demo_defs)
  have a: "\<And>cl. \<not> combinedAborted (timeoutArmed (Some (demoConfig 1000 0)))
             (demoNet cl None demoChunks None) None 0"
    by (simp add: fetch_defs demo_defs)
  have hd: "\<And>cl. fetchHEAD (demoNet cl None demoChunks None) demoUrl = Inr (?hr cl)"
    by (simp add: demoNet_def)
  have okh: "\<And>cl. ok (?hr cl)" by simp
  have pi: "mathInt ''2000'' = Some 2000"
    by (simp add: mathInt_def isWhiteSpace_def isDigit_def digitsValue_def)
  show ?thesis
    using predeclared_size_check [OF p s d a hd okh, of "Some ''2000''" "''2000''" 2000]
      predeclared_size_check [OF p s d a hd okh, of None "''2000''" 2000] pi
    by (simp add: demoConfig_def demoHeaders_def)
qed

text \<open>
  With \<open>maxUrlFileSizeBytes = 0\<close> a declared length of 5 exceeds the limit, and the
  call issues the GET request and succeeds. With a limit of \<open>2^53\<close> a declared length
  of \<open>2^53 + 1\<close> exceeds the limit, \<open>parseInt\<close> reads it as \<open>2^53\<close>, and the call issues
  the GET request.
\<close>

theorem predeclared_size_check_counterexample:
  "mathInt ''5'' = Some 5 \<and> 5 > maxUrlFileSizeBytes (demoConfig 0 0) \<and>
   fetchFileFromUrl (demoNet (Some ''5'') None demoChunks None) (demoSpec None)
       (Some (demoConfig 0 0)) None =
     \<lparr>result = Inr \<lparr>fileName = ''a.bin'', fileBytes = [1, 2, 3, 4, 5],
                     fileType = ''application/octet-stream''\<rparr>,
      requests = [HEAD, GET], timer = NoTimer, held = 5\<rparr> \<and>
   mathInt ''9007199254740993'' = Some 9007199254740993 \<and>
   9007199254740993 > maxUrlFileSizeBytes (demoConfig 9007199254740992 0) \<and>
   parseInt ''9007199254740993'' = Finite 9007199254740992 \<and>
   requests (fetchFileFromUrl (demoNet (Some ''9007199254740993'') None demoChunks None)
               (demoSpec None) (Some (demoConfig 9007199254740992 0)) None) = [HEAD, GET]"
proof -
  have m5: "mathInt ''5'' = Some 5"
    by (simp add: mathInt_def isWhiteSpace_def isDigit_def digitsValue_def)
  have z: "fetchFileFromUrl (demoNet (Some ''5'') None demoChunks None) (demoSpec None)
       (Some (demoConfig 0 0)) None =
     \<lparr>result = Inr \<lparr>fileName = ''a.bin'', fileBytes = [1, 2, 3, 4, 5],
                     fileType = ''application/octet-stream''\<rparr>,
      requests = [HEAD, GET], timer = NoTimer, held = 5\<rparr>"
    by (simp add: fetch_defs demo_defs)
  have mb: "mathInt ''9007199254740993'' = Some 9007199254740993"
    by (simp add: mathInt_def isWhiteSpace_def isDigit_def digitsValue_def)
  have pb: "parseInt ''9007199254740993'' = Finite 9007199254740992"
    by (simp add: parseInt_def mb toNumber_def roundToDouble_def Let_def)
  have pc: "predeclaredCheck (Some (demoConfig 9007199254740992 0)) (Some ''9007199254740993'') = None"
    by (simp add: predeclaredCheck_def sizeLimit_def demoConfig_def pb)
  have rb: "requests (fetchFileFromUrl (demoNet (Some ''9007199254740993'') None demoChunks None)
               (demoSpec None) (Some (demoConfig 9007199254740992 0)) None) = [HEAD, GET]"
    using pc
    by (simp add: fetchFileFromUrl_def fetchBody_def fetch_def checkScheme_def checkDomain_def
        scheme_def arrayIncludes_def domainMatches_def toLowerCase_def lowerChar_def endsWith_def
        timeoutArmed_def combinedAborted_def controllerAborted_def firedBy_def combinedReason_def
        sizeLimit_def resolveContentType_def jsOr_def newFile_def byteLength_def Let_def
        demoNet_def demoUrl_def demoHeaders_def demoConfig_def demoSpec_def demoChunks_def)
  show ?thesis using m5 z mb pb rb by (simp add: demoConfig_def)
qed

section \<open>Streaming size check\<close>

lemma fetchBody_bounded:
  assumes "0 < m" "sizeLimit cfg = Some m"
    "fetchBody net u fs cfg ab rej = (r, reqs, h)"
    "\<forall>g reads v. fetchGET net u = Inr g \<and> body g = Some reads \<and> Chunk v \<in> set reads
        \<longrightarrow> length v \<le> B"
  shows "h \<le> nat m + B \<and> (\<forall>f. r = Inr f \<longrightarrow> int (length (fileBytes f)) \<le> m)"
proof (cases "\<exists>g reads. \<not> ab 0 \<and> \<not> ab 1 \<and> fetchGET net u = Inr g \<and> body g = Some reads \<and>
                fetchBody net u fs cfg ab rej =
                  (case readLoop ab rej (Some m) 2 reads [] 0 0 of
                     (Inl e, h) \<Rightarrow> (Inl e, [HEAD, GET], h)
                   | (Inr chunks, h) \<Rightarrow>
                       (Inr (newFile (concat chunks) (name fs)
                               (resolveContentType (mimeType fs) (headers g ''content-type''))),
                        [HEAD, GET], h))")
  case True
  then obtain g reads where g: "fetchGET net u = Inr g" "body g = Some reads"
    and fb: "fetchBody net u fs cfg ab rej =
                  (case readLoop ab rej (Some m) 2 reads [] 0 0 of
                     (Inl e, h) \<Rightarrow> (Inl e, [HEAD, GET], h)
                   | (Inr chunks, h) \<Rightarrow>
                       (Inr (newFile (concat chunks) (name fs)
                               (resolveContentType (mimeType fs) (headers g ''content-type''))),
                        [HEAD, GET], h))"
    by blast
  have cb: "\<forall>v. Chunk v \<in> set reads \<longrightarrow> length v \<le> B"
    using assms(4) g by blast
  have inv: "snd (readLoop ab rej (Some m) 2 reads [] 0 0) \<le> nat m + B \<and>
         (\<forall>cs. fst (readLoop ab rej (Some m) 2 reads [] 0 0) = Inr cs \<longrightarrow> int (byteLength cs) \<le> m)"
    using assms(1) cb by (intro readLoop_bounded) (auto simp: byteLength_def)
  obtain r1 h1 where rl: "readLoop ab rej (Some m) 2 reads [] 0 0 = (r1, h1)"
    by (cases "readLoop ab rej (Some m) 2 reads [] 0 0") auto
  show ?thesis
    using inv fb assms(3) rl
    by (cases r1) (auto simp: length_concat_byteLength newFile_def)
next
  case False
  then show ?thesis
    using assms(2,3)
    by (auto simp: fetchBody_def fetch_def Let_def
        split: sum.splits option.splits prod.splits if_splits)
qed


lemma chunk_le_total:
  "Chunk v \<in> set reads \<Longrightarrow>
     length v \<le> sum_list (map (\<lambda>x. case x of Chunk w \<Rightarrow> length w | ReadError _ \<Rightarrow> 0) reads)"
  by (induction reads) (auto split: ReadResult.splits)

lemma fetchBody_file_bounded:
  assumes "0 < m" "sizeLimit cfg = Some m" "fetchBody net u fs cfg ab rej = (Inr f, reqs, h)"
  shows "int (length (fileBytes f)) \<le> m"
proof -
  define B where "B =
    (case fetchGET net u of
       Inl _ \<Rightarrow> 0
     | Inr g \<Rightarrow>
         (case body g of
            None \<Rightarrow> 0
          | Some reads \<Rightarrow>
              sum_list (map (\<lambda>x. case x of Chunk w \<Rightarrow> length w | ReadError _ \<Rightarrow> 0) reads)))"
  have "\<forall>g reads v. fetchGET net u = Inr g \<and> body g = Some reads \<and> Chunk v \<in> set reads
        \<longrightarrow> length v \<le> B"
    by (auto simp: B_def chunk_le_total)
  then show ?thesis
    using fetchBody_bounded [OF assms(1,2,3)] by blast
qed

text \<open>
  Claim C5 (amended). Under a configuration whose \<open>maxUrlFileSizeBytes\<close> is positive,
  whatever content length the server declares or omits: a file that is returned has
  at most that many bytes; the bytes held at any moment are at most the limit plus the
  longest chunk; and when the body is read with no cancellation and its chunks add up
  to more than the limit, the call fails with the streaming size error at the first
  chunk whose cumulative total exceeds the limit.
\<close>

theorem streaming_size_check:
  assumes "0 < maxUrlFileSizeBytes c"
  shows "(\<forall>f. result (fetchFileFromUrl net fs (Some c) sig) = Inr f \<longrightarrow>
            int (length (fileBytes f)) \<le> maxUrlFileSizeBytes c) \<and>
         ((\<forall>u g reads v. parseURL net (url fs) = Some u \<and> fetchGET net u = Inr g \<and>
                body g = Some reads \<and> Chunk v \<in> set reads \<longrightarrow> length v \<le> B) \<longrightarrow>
            held (fetchFileFromUrl net fs (Some c) sig) \<le> nat (maxUrlFileSizeBytes c) + B) \<and>
         (\<forall>u hr g vs.
            parseURL net (url fs) = Some u \<and> checkScheme (Some c) u = None \<and>
            checkDomain (Some c) u = None \<and>
            (\<forall>k. \<not> combinedAborted (timeoutArmed (Some c)) net sig k) \<and>
            fetchHEAD net u = Inr hr \<and> ok hr \<and>
            predeclaredCheck (Some c) (headers hr ''content-length'') = None \<and>
            fetchGET net u = Inr g \<and> ok g \<and> body g = Some (map Chunk vs) \<and>
            int (byteLength vs) > maxUrlFileSizeBytes c \<longrightarrow>
            (\<exists>j < length vs.
               result (fetchFileFromUrl net fs (Some c) sig) =
                 Inl (SizeExceededStreaming (int (byteLength (take (Suc j) vs)))
                        (maxUrlFileSizeBytes c)) \<and>
               int (byteLength (take j vs)) \<le> maxUrlFileSizeBytes c \<and>
               int (byteLength (take (Suc j) vs)) > maxUrlFileSizeBytes c))"
proof (intro conjI allI impI)
  let ?m = "maxUrlFileSizeBytes c"
  let ?out = "fetchFileFromUrl net fs (Some c) sig"
  have lim: "sizeLimit (Some c) = Some ?m"
    using assms by (simp add: sizeLimit_def)
  {
    fix f
    assume r: "result ?out = Inr f"
    show "int (length (fileBytes f)) \<le> ?m"
    proof (cases "\<exists>u. parseURL net (url fs) = Some u \<and> checkScheme (Some c) u = None \<and>
                      checkDomain (Some c) u = None")
      case True
      then obtain u where u: "parseURL net (url fs) = Some u" "checkScheme (Some c) u = None"
        "checkDomain (Some c) u = None" by blast
      obtain r0 reqs h0 where fb:
        "fetchBody net u fs (Some c) (combinedAborted (timeoutArmed (Some c)) net sig)
           (combinedReason sig) = (r0, reqs, h0)"
        by (cases "fetchBody net u fs (Some c) (combinedAborted (timeoutArmed (Some c)) net sig)
                     (combinedReason sig)") auto
      have "r0 = Inr f"
        using r u fb by (simp add: fetchFileFromUrl_reached)
      then show ?thesis
        using fetchBody_file_bounded [OF assms lim] fb by blast
    next
      case False
      then show ?thesis
        using r by (auto simp: fetchFileFromUrl_def split: option.splits)
    qed
  }
  {
    assume cb: "\<forall>u g reads v. parseURL net (url fs) = Some u \<and> fetchGET net u = Inr g \<and>
                body g = Some reads \<and> Chunk v \<in> set reads \<longrightarrow> length v \<le> B"
    show "held ?out \<le> nat ?m + B"
    proof (cases "\<exists>u. parseURL net (url fs) = Some u \<and> checkScheme (Some c) u = None \<and>
                      checkDomain (Some c) u = None")
      case True
      then obtain u where u: "parseURL net (url fs) = Some u" "checkScheme (Some c) u = None"
        "checkDomain (Some c) u = None" by blast
      obtain r0 reqs h0 where fb:
        "fetchBody net u fs (Some c) (combinedAborted (timeoutArmed (Some c)) net sig)
           (combinedReason sig) = (r0, reqs, h0)"
        by (cases "fetchBody net u fs (Some c) (combinedAborted (timeoutArmed (Some c)) net sig)
                     (combinedReason sig)") auto
      have cb': "\<forall>g reads v. fetchGET net u = Inr g \<and> body g = Some reads \<and>
          Chunk v \<in> set reads \<longrightarrow> length v \<le> B"
        using cb u(1) by blast
      have "h0 \<le> nat ?m + B"
        using fetchBody_bounded [OF assms lim fb cb'] by simp
      then show ?thesis
        using u fb by (simp add: fetchFileFromUrl_reached)
    next
      case False
      then show ?thesis
        by (auto simp: fetchFileFromUrl_def split: option.splits)
    qed
  }
  {
    fix u hr g vs
    assume a: "parseURL net (url fs) = Some u \<and> checkScheme (Some c) u = None \<and>
            checkDomain (Some c) u = None \<and>
            (\<forall>k. \<not> combinedAborted (timeoutArmed (Some c)) net sig k) \<and>
            fetchHEAD net u = Inr hr \<and> ok hr \<and>
            predeclaredCheck (Some c) (headers hr ''content-length'') = None \<and>
            fetchGET net u = Inr g \<and> ok g \<and> body g = Some (map Chunk vs) \<and>
            int (byteLength vs) > ?m"
    let ?ab = "combinedAborted (timeoutArmed (Some c)) net sig"
    let ?rej = "combinedReason sig"
    have nab: "\<forall>j. \<not> ?ab j" using a by blast
    have le0: "(0::int) \<le> ?m" using assms by simp
    have gt: "0 + int (byteLength vs) > ?m" using a by simp
    have "\<exists>j < length vs.
           fst (readLoop ?ab ?rej (Some ?m) 2 (map Chunk vs) [] 0 0) =
             Inl (SizeExceededStreaming (0 + int (byteLength (take (Suc j) vs))) ?m) \<and>
           0 + int (byteLength (take j vs)) \<le> ?m \<and>
           0 + int (byteLength (take (Suc j) vs)) > ?m"
      by (rule readLoop_chunks_exceed [OF nab le0 gt])
    then obtain j where j: "j < length vs"
      "fst (readLoop ?ab ?rej (Some ?m) 2 (map Chunk vs) [] 0 0) =
         Inl (SizeExceededStreaming (int (byteLength (take (Suc j) vs))) ?m)"
      "int (byteLength (take j vs)) \<le> ?m"
      "int (byteLength (take (Suc j) vs)) > ?m"
      by auto
    obtain h1 where rl: "readLoop ?ab ?rej (Some ?m) 2 (map Chunk vs) [] 0 0 =
         (Inl (SizeExceededStreaming (int (byteLength (take (Suc j) vs))) ?m), h1)"
      using j(2) by (cases "readLoop ?ab ?rej (Some ?m) 2 (map Chunk vs) [] 0 0") auto
    have n0: "\<not> ?ab 0" and n1: "\<not> ?ab 1" using nab by blast+
    have "result ?out = Inl (SizeExceededStreaming (int (byteLength (take (Suc j) vs))) ?m)"
      using a lim rl n0 n1
      by (simp add: fetchFileFromUrl_reached fetchBody_def fetch_def Let_def)
    then show "\<exists>j < length vs.
               result ?out = Inl (SizeExceededStreaming (int (byteLength (take (Suc j) vs))) ?m) \<and>
               int (byteLength (take j vs)) \<le> ?m \<and>
               int (byteLength (take (Suc j) vs)) > ?m"
      using j by auto
  }
qed


theorem streaming_size_check_witness:
  "0 < maxUrlFileSizeBytes (demoConfig 4 0) \<and>
   held (fetchFileFromUrl (demoNet None None demoChunks None) (demoSpec None)
           (Some (demoConfig 4 0)) None) \<le> 4 + 3 \<and>
   (\<exists>t. result (fetchFileFromUrl (demoNet None None demoChunks None) (demoSpec None)
                  (Some (demoConfig 4 0)) None) = Inl (SizeExceededStreaming t 4)) \<and>
   0 < maxUrlFileSizeBytes (demoConfig 5 0) \<and>
   result (fetchFileFromUrl (demoNet None None demoChunks None) (demoSpec None)
             (Some (demoConfig 5 0)) None) =
     Inr \<lparr>fileName = ''a.bin'', fileBytes = [1, 2, 3, 4, 5],
          fileType = ''application/octet-stream''\<rparr> \<and>
   int (length (fileBytes \<lparr>fileName = ''a.bin'', fileBytes = [1, 2, 3, 4, 5],
                           fileType = ''application/octet-stream''\<rparr>)) \<le> 5"
proof -
  let ?net = "demoNet None None demoChunks None"
  let ?c = "demoConfig 4 0"
  let ?g = "\<lparr>ok = True, status = 200, statusText = ''OK'',
             headers = demoHeaders None None, body = Some (map Chunk demoChunks)\<rparr>"
  let ?hr = "\<lparr>ok = True, status = 200, statusText = ''OK'',
              headers = demoHeaders None None, body = None :: ReadResult list option\<rparr>"
  let ?f = "\<lparr>fileName = ''a.bin'', fileBytes = [1, 2, 3, 4, 5],
             fileType = ''application/octet-stream''\<rparr>"
  have pos: "0 < maxUrlFileSizeBytes ?c" by (simp add: demoConfig_def)
  have m: "maxUrlFileSizeBytes ?c = 4" by (simp add: demoConfig_def)
  have pos5: "0 < maxUrlFileSizeBytes (demoConfig 5 0)" by (simp add: demoConfig_def)
  have m5: "maxUrlFileSizeBytes (demoConfig 5 0) = 5" by (simp add: demoConfig_def)
  have b: "\<forall>u g reads v. parseURL ?net (url (demoSpec None)) = Some u \<and> fetchGET ?net u = Inr g \<and>
                body g = Some reads \<and> Chunk v \<in> set reads \<longrightarrow> length v \<le> 3"
    by (auto simp: demo_defs)
  have r: "parseURL ?net (url (demoSpec None)) = Some demoUrl \<and>
           checkScheme (Some ?c) demoUrl = None \<and> checkDomain (Some ?c) demoUrl = None \<and>
           (\<forall>k. \<not> combinedAborted (timeoutArmed (Some ?c)) ?net None k) \<and>
           fetchHEAD ?net demoUrl = Inr ?hr \<and> ok ?hr \<and>
           predeclaredCheck (Some ?c) (headers ?hr ''content-length'') = None \<and>
           fetchGET ?net demoUrl = Inr ?g \<and> ok ?g \<and> body ?g = Some (map Chunk demoChunks) \<and>
           int (byteLength demoChunks) > maxUrlFileSizeBytes ?c"
    by (simp add: fetch_defs demo_defs)
  have ok5: "result (fetchFileFromUrl ?net (demoSpec None) (Some (demoConfig 5 0)) None) = Inr ?f"
    by (simp add: fetch_defs demo_defs)
  note t = streaming_size_check [OF pos, of ?net "demoSpec None" None 3]
  note t5 = streaming_size_check [OF pos5, of ?net "demoSpec None" None 3]
  have 1: "int (length (fileBytes ?f)) \<le> 5"
    using t5 ok5 m5 by metis
  have 2: "held (fetchFileFromUrl ?net (demoSpec None) (Some ?c) None) \<le> 4 + 3"
    using t b m by simp
  have 3: "\<exists>t. result (fetchFileFromUrl ?net (demoSpec None) (Some ?c) None) =
             Inl (SizeExceededStreaming t 4)"
    using t r m by metis
  show ?thesis using pos pos5 ok5 1 2 3 by blast
qed

text \<open>
  With \<open>maxUrlFileSizeBytes = 0\<close> the body of 5 bytes exceeds the limit, and the call
  returns a file with all of them.
\<close>

theorem streaming_size_check_counterexample:
  "int (byteLength demoChunks) > maxUrlFileSizeBytes (demoConfig 0 0) \<and>
   result (fetchFileFromUrl (demoNet None None demoChunks None) (demoSpec None)
             (Some (demoConfig 0 0)) None) =
     Inr \<lparr>fileName = ''a.bin'', fileBytes = [1, 2, 3, 4, 5],
          fileType = ''application/octet-stream''\<rparr>"
  by (simp add: fetch_defs demo_defs)

section \<open>Fetching without limits\<close>

lemma fetch_full_body:
  assumes "parseURL net (url fs) = Some u" "checkScheme cfg u = None" "checkDomain cfg u = None"
    "\<forall>k. \<not> combinedAborted (timeoutArmed cfg) net sig k"
    "fetchHEAD net u = Inr hr" "ok hr" "fetchGET net u = Inr g" "ok g"
    "body g = Some (map Chunk vs)" "sizeLimit cfg = None"
  shows "result (fetchFileFromUrl net fs cfg sig) =
           Inr \<lparr>fileName = name fs, fileBytes = concat vs,
                fileType = normalizeType (resolveContentType (mimeType fs)
                  (headers g ''content-type''))\<rparr> \<and>
         requests (fetchFileFromUrl net fs cfg sig) = [HEAD, GET]"
proof -
  let ?ab = "combinedAborted (timeoutArmed cfg) net sig"
  let ?rej = "combinedReason sig"
  have n0: "\<not> ?ab 0" and n1: "\<not> ?ab 1" using assms(4) by blast+
  have "fst (readLoop ?ab ?rej None 2 (map Chunk vs) [] 0 0) = Inr ([] @ vs)"
    by (rule readLoop_chunks_ok [OF assms(4)]) simp
  then obtain h1 where rl: "readLoop ?ab ?rej None 2 (map Chunk vs) [] 0 0 = (Inr vs, h1)"
    by (cases "readLoop ?ab ?rej None 2 (map Chunk vs) [] 0 0") auto
  show ?thesis
    using assms(1-3,5-10) n0 n1 rl
    by (simp add: fetchFileFromUrl_reached fetchBody_def fetch_def Let_def
        predeclaredCheck_no_limit newFile_def)
qed

text \<open>
  Claim C10. With no URL configuration, \<open>fetchFileFromUrl\<close> checks neither scheme nor
  domain, applies neither size check and arms no timer: whatever the scheme and host of
  the parsed URL and whatever the size of the body, when both requests are answered
  with success and the caller's signal does not fire, the call returns a file with the
  whole body. With a configuration whose \<open>maxUrlFileSizeBytes\<close> is 0 both size checks
  are skipped as well.
\<close>

theorem no_config_no_checks:
  "(checkScheme None u = None \<and> checkDomain None u = None \<and> predeclaredCheck None h = None \<and>
    sizeLimit None = None \<and> \<not> timeoutArmed None) \<and>
   (parseURL net (url fs) = Some u \<and> fetchHEAD net u = Inr hr \<and> ok hr \<and>
    fetchGET net u = Inr g \<and> ok g \<and> body g = Some (map Chunk vs) \<and>
    (case sig of None \<Rightarrow> True | Some s \<Rightarrow> \<forall>k. \<not> signalAborted s k) \<longrightarrow>
      result (fetchFileFromUrl net fs None sig) =
        Inr \<lparr>fileName = name fs, fileBytes = concat vs,
             fileType = normalizeType (resolveContentType (mimeType fs)
                  (headers g ''content-type''))\<rparr> \<and>
      requests (fetchFileFromUrl net fs None sig) = [HEAD, GET] \<and>
      timer (fetchFileFromUrl net fs None sig) = NoTimer) \<and>
   (maxUrlFileSizeBytes c = 0 \<longrightarrow>
      sizeLimit (Some c) = None \<and> predeclaredCheck (Some c) h = None \<and>
      (parseURL net (url fs) = Some u \<and> checkScheme (Some c) u = None \<and>
       checkDomain (Some c) u = None \<and>
       (\<forall>k. \<not> combinedAborted (timeoutArmed (Some c)) net sig k) \<and>
       fetchHEAD net u = Inr hr \<and> ok hr \<and>
       fetchGET net u = Inr g \<and> ok g \<and> body g = Some (map Chunk vs) \<longrightarrow>
         result (fetchFileFromUrl net fs (Some c) sig) =
           Inr \<lparr>fileName = name fs, fileBytes = concat vs,
                fileType = normalizeType (resolveContentType (mimeType fs)
                  (headers g ''content-type''))\<rparr>))"
proof (intro conjI impI)
  show "checkScheme None u = None" by (simp add: checkScheme_def)
  show "checkDomain None u = None" by (simp add: checkDomain_def)
  show "predeclaredCheck None h = None" by (simp add: predeclaredCheck_def sizeLimit_def)
  show "sizeLimit None = None" by (simp add: sizeLimit_def)
  show "\<not> timeoutArmed None" by (simp add: timeoutArmed_def)
next
  assume a: "parseURL net (url fs) = Some u \<and> fetchHEAD net u = Inr hr \<and> ok hr \<and>
    fetchGET net u = Inr g \<and> ok g \<and> body g = Some (map Chunk vs) \<and>
    (case sig of None \<Rightarrow> True | Some s \<Rightarrow> \<forall>k. \<not> signalAborted s k)"
  have nab: "\<forall>k. \<not> combinedAborted (timeoutArmed None) net sig k"
    using a by (auto simp: combinedAborted_def controllerAborted_def timeoutArmed_def
        split: option.splits)
  have cs: "checkScheme None u = None" by (simp add: checkScheme_def)
  have cd: "checkDomain None u = None" by (simp add: checkDomain_def)
  have sl: "sizeLimit None = None" by (simp add: sizeLimit_def)
  have full: "result (fetchFileFromUrl net fs None sig) =
           Inr \<lparr>fileName = name fs, fileBytes = concat vs,
                fileType = normalizeType (resolveContentType (mimeType fs)
                  (headers g ''content-type''))\<rparr> \<and>
         requests (fetchFileFromUrl net fs None sig) = [HEAD, GET]"
    using a by (intro fetch_full_body [OF _ cs cd nab _ _ _ _ _ sl]) auto
  show "result (fetchFileFromUrl net fs None sig) =
        Inr \<lparr>fileName = name fs, fileBytes = concat vs,
             fileType = normalizeType (resolveContentType (mimeType fs)
                  (headers g ''content-type''))\<rparr>"
    using full by blast
  show "requests (fetchFileFromUrl net fs None sig) = [HEAD, GET]"
    using full by blast
  show "timer (fetchFileFromUrl net fs None sig) = NoTimer"
    by (auto simp: fetchFileFromUrl_def Let_def timeoutArmed_def split: option.splits prod.splits)
next
  assume z: "maxUrlFileSizeBytes c = 0"
  show sl: "sizeLimit (Some c) = None" using z by (simp add: sizeLimit_def)
  show "predeclaredCheck (Some c) h = None" using sl by (rule predeclaredCheck_no_limit)
  assume a: "parseURL net (url fs) = Some u \<and> checkScheme (Some c) u = None \<and>
       checkDomain (Some c) u = None \<and>
       (\<forall>k. \<not> combinedAborted (timeoutArmed (Some c)) net sig k) \<and>
       fetchHEAD net u = Inr hr \<and> ok hr \<and>
       fetchGET net u = Inr g \<and> ok g \<and> body g = Some (map Chunk vs)"
  have "result (fetchFileFromUrl net fs (Some c) sig) =
           Inr \<lparr>fileName = name fs, fileBytes = concat vs,
                fileType = normalizeType (resolveContentType (mimeType fs)
                  (headers g ''content-type''))\<rparr> \<and>
         requests (fetchFileFromUrl net fs (Some c) sig) = [HEAD, GET]"
    using a sl by (intro fetch_full_body) auto
  then show "result (fetchFileFromUrl net fs (Some c) sig) =
           Inr \<lparr>fileName = name fs, fileBytes = concat vs,
                fileType = normalizeType (resolveContentType (mimeType fs)
                  (headers g ''content-type''))\<rparr>"
    by blast
qed


theorem no_config_no_checks_witness:
  "result (fetchFileFromUrl
             ((demoNet (Some ''99999'') None demoChunks (Some 0))
                \<lparr>parseURL := (\<lambda>s. Some \<lparr>protocol = ''ftp:'', hostname = ''intranet'',
                                          origin = ''ftp://intranet'', href = s\<rparr>)\<rparr>)
             (demoSpec None) None (Some quietSignal)) =
     Inr \<lparr>fileName = ''a.bin'', fileBytes = [1, 2, 3, 4, 5],
          fileType = ''application/octet-stream''\<rparr> \<and>
   result (fetchFileFromUrl (demoNet (Some ''abc'') None demoChunks None) (demoSpec None)
             (Some (demoConfig 0 0)) None) =
     Inr \<lparr>fileName = ''a.bin'', fileBytes = [1, 2, 3, 4, 5],
          fileType = ''application/octet-stream''\<rparr>"
proof -
  let ?u = "\<lparr>protocol = ''ftp:'', hostname = ''intranet'', origin = ''ftp://intranet'',
             href = ''https://cdn.example.com/a.bin''\<rparr>"
  let ?net = "(demoNet (Some ''99999'') None demoChunks (Some 0))
                \<lparr>parseURL := (\<lambda>s. Some \<lparr>protocol = ''ftp:'', hostname = ''intranet'',
                                          origin = ''ftp://intranet'', href = s\<rparr>)\<rparr>"
  let ?net2 = "demoNet (Some ''abc'') None demoChunks None"
  let ?hr = "\<lambda>cl. \<lparr>ok = True, status = 200, statusText = ''OK'',
              headers = demoHeaders cl None, body = None :: ReadResult list option\<rparr>"
  let ?g = "\<lambda>cl. \<lparr>ok = True, status = 200, statusText = ''OK'',
             headers = demoHeaders cl None, body = Some (map Chunk demoChunks)\<rparr>"
  have a: "parseURL ?net (url (demoSpec None)) = Some ?u \<and>
           fetchHEAD ?net ?u = Inr (?hr (Some ''99999'')) \<and> ok (?hr (Some ''99999'')) \<and>
           fetchGET ?net ?u = Inr (?g (Some ''99999'')) \<and> ok (?g (Some ''99999'')) \<and>
           body (?g (Some ''99999'')) = Some (map Chunk demoChunks) \<and>
           (case Some quietSignal of None \<Rightarrow> True | Some s \<Rightarrow> \<forall>k. \<not> signalAborted s k)"
    by (simp add: demoNet_def demoSpec_def quietSignal_def signalAborted_def firedBy_def)
  have z: "maxUrlFileSizeBytes (demoConfig 0 0) = 0" by (simp add: demoConfig_def)
  have b: "parseURL ?net2 (url (demoSpec None)) = Some demoUrl \<and>
           checkScheme (Some (demoConfig 0 0)) demoUrl = None \<and>
           checkDomain (Some (demoConfig 0 0)) demoUrl = None \<and>
           (\<forall>k. \<not> combinedAborted (timeoutArmed (Some (demoConfig 0 0))) ?net2 None k) \<and>
           fetchHEAD ?net2 demoUrl = Inr (?hr (Some ''abc'')) \<and> ok (?hr (Some ''abc'')) \<and>
           fetchGET ?net2 demoUrl = Inr (?g (Some ''abc'')) \<and> ok (?g (Some ''abc'')) \<and>
           body (?g (Some ''abc'')) = Some (map Chunk demoChunks)"
    by (simp add: fetch_defs demo_defs)
  have 1: "result (fetchFileFromUrl ?net (demoSpec None) None (Some quietSignal)) =
     Inr \<lparr>fileName = ''a.bin'', fileBytes = [1, 2, 3, 4, 5],
          fileType = ''application/octet-stream''\<rparr>"
    using no_config_no_checks [of ?u "None" ?net "demoSpec None" "?hr (Some ''99999'')"
        "?g (Some ''99999'')" demoChunks "Some quietSignal" "demoConfig 0 0"] a
    by (simp add: demoSpec_def demoChunks_def demoHeaders_def resolveContentType_def jsOr_def
        normalizeType_def printableAscii_def toLowerCase_def lowerChar_def)
  have 2: "result (fetchFileFromUrl ?net2 (demoSpec None) (Some (demoConfig 0 0)) None) =
     Inr \<lparr>fileName = ''a.bin'', fileBytes = [1, 2, 3, 4, 5],
          fileType = ''application/octet-stream''\<rparr>"
    using no_config_no_checks [of demoUrl "None" ?net2 "demoSpec None" "?hr (Some ''abc'')"
        "?g (Some ''abc'')" demoChunks None "demoConfig 0 0"] b z
    by (simp add: demoSpec_def demoChunks_def demoHeaders_def resolveContentType_def jsOr_def
        normalizeType_def printableAscii_def toLowerCase_def lowerChar_def)
  show ?thesis using 1 2 by blast
qed

section \<open>MIME type of the fetched file\<close>

text \<open>
  What the function does with the property it reads: the type of the returned file is
  the platform's normal form of the \<open>mimeType\<close> property when that is a non-empty
  string, otherwise of the \<open>content-type\<close> header of the GET response when that is a
  non-empty string, otherwise of \<open>application/octet-stream\<close>.
\<close>

lemma content_type_precedence:
  assumes "parseURL net (url fs) = Some u" "fetchGET net u = Inr g"
    "result (fetchFileFromUrl net fs cfg sig) = Inr f"
  shows "fileType f =
           normalizeType
             (case mimeType fs of
                Some m \<Rightarrow>
                  if m \<noteq> [] then m
                  else (case headers g ''content-type'' of
                          Some t \<Rightarrow> if t \<noteq> [] then t else ''application/octet-stream''
                        | None \<Rightarrow> ''application/octet-stream'')
              | None \<Rightarrow>
                  (case headers g ''content-type'' of
                     Some t \<Rightarrow> if t \<noteq> [] then t else ''application/octet-stream''
                   | None \<Rightarrow> ''application/octet-stream''))"
proof -
  have ct: "resolveContentType (mimeType fs) (headers g ''content-type'') =
           (case mimeType fs of
              Some m \<Rightarrow>
                if m \<noteq> [] then m
                else (case headers g ''content-type'' of
                        Some t \<Rightarrow> if t \<noteq> [] then t else ''application/octet-stream''
                      | None \<Rightarrow> ''application/octet-stream'')
            | None \<Rightarrow>
                (case headers g ''content-type'' of
                   Some t \<Rightarrow> if t \<noteq> [] then t else ''application/octet-stream''
                 | None \<Rightarrow> ''application/octet-stream''))"
    by (simp add: resolveContentType_def jsOr_def split: option.splits)
  have "fileType f = normalizeType (resolveContentType (mimeType fs) (headers g ''content-type''))"
    using assms
    by (auto simp: fetchFileFromUrl_def fetchBody_def fetch_def Let_def newFile_def
        split: option.splits sum.splits prod.splits if_splits)
  then show ?thesis using ct by simp
qed

text \<open>The field that the interface declares is never read.\<close>

lemma declared_field_not_read:
  "fetchFileFromUrl net (fs\<lparr>mimeTyp := m\<rparr>) cfg sig = fetchFileFromUrl net fs cfg sig"
proof -
  have "\<And>u ab rej. fetchBody net u (fs\<lparr>mimeTyp := m\<rparr>) cfg ab rej = fetchBody net u fs cfg ab rej"
    by (auto simp: fetchBody_def Let_def split: sum.splits option.splits prod.splits)
  then show ?thesis
    by (auto simp: fetchFileFromUrl_def Let_def split: option.splits)
qed

text \<open>
  Two more inputs: an override that is present and empty gives the type that the
  server declares, and an override in upper case comes back in lower case.
\<close>

lemma override_examples:
  "result (fetchFileFromUrl (demoNet None (Some ''text/html'') demoChunks None)
             (demoSpec (Some [])) None None) =
     Inr \<lparr>fileName = ''a.bin'', fileBytes = [1, 2, 3, 4, 5], fileType = ''text/html''\<rparr>"
  "result (fetchFileFromUrl (demoNet None (Some ''text/html'') demoChunks None)
             (demoSpec (Some ''Text/Plain'')) None None) =
     Inr \<lparr>fileName = ''a.bin'', fileBytes = [1, 2, 3, 4, 5], fileType = ''text/plain''\<rparr>"
  by (simp_all add: fetch_defs demo_defs)

text \<open>
  Claim C7, evaluated where it fails. A file specification built to the interface
  \<open>UploadFileFromUrl\<close> gives its MIME type override in the declared field \<open>mimeTyp\<close>;
  the function reads the property \<open>mimeType\<close>, finds none, and the returned file has
  the type that the server declares. The same override in a property \<open>mimeType\<close>, as
  the upload tool passes it, takes effect.
\<close>

theorem declared_mime_override_ignored:
  "mimeTyp (typedSpec (Some ''text/plain'')) = Some ''text/plain'' \<and>
   result (fetchFileFromUrl (demoNet None (Some ''text/html'') demoChunks None)
             (typedSpec (Some ''text/plain'')) None None) =
     Inr \<lparr>fileName = ''a.bin'', fileBytes = [1, 2, 3, 4, 5], fileType = ''text/html''\<rparr> \<and>
   result (fetchFileFromUrl (demoNet None (Some ''text/html'') demoChunks None)
             (demoSpec (Some ''text/plain'')) None None) =
     Inr \<lparr>fileName = ''a.bin'', fileBytes = [1, 2, 3, 4, 5], fileType = ''text/plain''\<rparr>"
  by (simp add: fetch_defs demo_defs)

section \<open>Cancellation\<close>

text \<open>
  What holds of the two cancellation sources: the caller's signal, when it fires
  before the HEAD request is answered, ends the call, with the timeout-or-aborted error
  when its reason is an error named AbortError and with its own reason otherwise; the
  timer, when no signal is passed, ends it with the timeout-or-aborted error.
\<close>

lemma external_signal_aborts:
  assumes "parseURL net (url fs) = Some u" "checkScheme cfg u = None" "checkDomain cfg u = None"
    "signalAborted s 0"
  shows "result (fetchFileFromUrl net fs cfg (Some s)) =
           Inl (case reason s of
                  AbortErrorReason \<Rightarrow> TimeoutOrAborted
                | OtherReason m \<Rightarrow> AbortedWithReason m)"
  using assms
  by (cases "reason s")
     (simp_all add: fetchFileFromUrl_reached fetchBody_def fetch_def combinedAborted_def
        combinedReason_def)

lemma timer_aborts_without_signal:
  assumes "parseURL net (url fs) = Some u" "checkScheme cfg u = None" "checkDomain cfg u = None"
    "timeoutArmed cfg" "timeoutElapsesAt net = Some 0"
  shows "result (fetchFileFromUrl net fs cfg None) = Inl TimeoutOrAborted"
  using assms
  by (simp add: fetchFileFromUrl_reached fetchBody_def fetch_def combinedAborted_def
      controllerAborted_def firedBy_def combinedReason_def)

text \<open>
  Claim C3, evaluated where it fails. The configuration arms a timeout, the caller
  passes a signal that never fires, and the timeout elapses while the HEAD request is
  pending. The controller is aborted, but the requests listen to the caller's signal
  only (line 254), so the call runs on and returns the file. The same call without the
  caller's signal fails with the timeout-or-aborted error. The timer is cleared in both.
\<close>

theorem timeout_ignored_with_external_signal:
  "timeoutArmed (Some (demoConfig 1000 5000)) \<and>
   controllerAborted True (demoNet None None demoChunks (Some 0)) (Some quietSignal) 0 \<and>
   fetchFileFromUrl (demoNet None None demoChunks (Some 0)) (demoSpec None)
       (Some (demoConfig 1000 5000)) (Some quietSignal) =
     \<lparr>result = Inr \<lparr>fileName = ''a.bin'', fileBytes = [1, 2, 3, 4, 5],
                     fileType = ''application/octet-stream''\<rparr>,
      requests = [HEAD, GET], timer = Cleared, held = 5\<rparr> \<and>
   fetchFileFromUrl (demoNet None None demoChunks (Some 0)) (demoSpec None)
       (Some (demoConfig 1000 5000)) None =
     \<lparr>result = Inl TimeoutOrAborted, requests = [HEAD], timer = Cleared, held = 0\<rparr>"
  by (simp add: fetch_defs demo_defs)

section \<open>Initialization\<close>

lemma consistent_newClient: "consistent (newClient g cfg)"
  by (simp add: consistent_def newClient_def)

lemma consistent_initialize: "consistent cl \<Longrightarrow> consistent (snd (initialize cl))"
  by (auto simp: consistent_def initialize_def split: InitTask.splits)

lemma consistent_backendSettles: "consistent cl \<Longrightarrow> consistent (backendSettles be cl)"
  by (auto simp: consistent_def backendSettles_def split: InitTask.splits Settled.splits)

lemma run_call_fst:
  "fst (run be (CallInitialize # evs) cl) =
     fst (initialize cl) # fst (run be evs (snd (initialize cl)))"
  by (simp split: prod.splits)

lemma run_call_snd:
  "snd (run be (CallInitialize # evs) cl) = snd (run be evs (snd (initialize cl)))"
  by (simp split: prod.splits)

lemma consistent_run: "consistent cl \<Longrightarrow> consistent (snd (run be evs cl))"
proof (induction be evs cl rule: run.induct)
  case (1 be cl)
  then show ?case by simp
next
  case (2 be evs cl)
  have "consistent (snd (initialize cl))"
    using "2.prems" by (rule consistent_initialize)
  then have "consistent (snd (run be evs (snd (initialize cl))))"
    using "2.IH" [of "fst (initialize cl)" "snd (initialize cl)"] by simp
  then show ?case by (simp only: run_call_snd)
next
  case (3 be evs cl)
  then show ?case by (simp add: consistent_backendSettles)
qed

text \<open>Once a promise is stored every call returns it and starts nothing.\<close>

lemma initialize_memoized:
  "initialized cl \<noteq> None \<Longrightarrow> initialize cl = (SharedPromise, cl)"
  by (simp add: initialize_def)

lemma run_started:
  assumes "consistent cl" "initialized cl \<noteq> None"
  shows "(\<forall>r \<in> set (fst (run be evs cl)). r = SharedPromise) \<and>
         initialized (snd (run be evs cl)) \<noteq> None \<and>
         count_list (backendCalls (snd (run be evs cl))) CreateCall = 1 \<and>
         count_list (backendCalls (snd (run be evs cl))) AddSpaceCall \<le> 1"
  using assms
proof (induction be evs cl rule: run.induct)
  case (1 be cl)
  then show ?case by (auto simp: consistent_def split: InitTask.splits)
next
  case (2 be evs cl)
  have i: "initialize cl = (SharedPromise, cl)"
    using "2.prems"(2) by (rule initialize_memoized)
  show ?case
    using "2.IH" [of SharedPromise cl] "2.prems" i
    by (simp only: run_call_fst run_call_snd) simp
next
  case (3 be evs cl)
  have c: "consistent (backendSettles be cl)"
    using "3.prems"(1) by (rule consistent_backendSettles)
  have i: "initialized (backendSettles be cl) \<noteq> None"
    using "3.prems" by (auto simp: backendSettles_def split: InitTask.splits Settled.splits)
  show ?case using "3.IH" [OF c i] by simp
qed

text \<open>A settled promise ends the task: nothing changes any more.\<close>

lemma run_settled:
  assumes "consistent cl" "initialized cl = Some p" "p \<noteq> Pending"
  shows "run be evs cl = (replicate (count_list evs CallInitialize) SharedPromise, cl)"
  using assms
proof (induction be evs cl rule: run.induct)
  case (1 be cl)
  then show ?case by simp
next
  case (2 be evs cl)
  then show ?case by (simp add: initialize_memoized)
next
  case (3 be evs cl)
  have "initTask cl = Finished"
    using "3.prems" by (auto simp: consistent_def split: InitTask.splits)
  then have "backendSettles be cl = cl" by (simp add: backendSettles_def)
  then show ?case using 3 by simp
qed

text \<open>Without a credential no call gets past the checks.\<close>

lemma run_missing_credential:
  assumes "initialized cl = None" "signer (config cl) = None \<or> delegation (config cl) = None"
    "initTask cl = NotStarted"
  shows "run be evs cl =
           (replicate (count_list evs CallInitialize)
              (Threw (if signer (config cl) = None then PrivateKeyRequired else DelegationRequired)),
            cl)"
  using assms
proof (induction be evs cl rule: run.induct)
  case (1 be cl)
  then show ?case by simp
next
  case (2 be evs cl)
  then show ?case by (auto simp: initialize_def)
next
  case (3 be evs cl)
  then have "backendSettles be cl = cl" by (simp add: backendSettles_def)
  then show ?case using 3 by simp
qed

text \<open>With both credentials the first call stores the promise.\<close>

lemma run_first_call:
  assumes "consistent cl" "initialized cl = None" "signer (config cl) \<noteq> None"
    "delegation (config cl) \<noteq> None" "CallInitialize \<in> set evs"
  shows "(\<forall>r \<in> set (fst (run be evs cl)). r = SharedPromise) \<and>
         initialized (snd (run be evs cl)) \<noteq> None \<and>
         count_list (backendCalls (snd (run be evs cl))) CreateCall = 1 \<and>
         count_list (backendCalls (snd (run be evs cl))) AddSpaceCall \<le> 1"
  using assms
proof (induction be evs cl rule: run.induct)
  case (1 be cl)
  then show ?case by simp
next
  case (2 be evs cl)
  let ?cl' = "cl\<lparr>initialized := Some Pending, initTask := AwaitingCreate,
               backendCalls := backendCalls cl @ [CreateCall]\<rparr>"
  have i: "initialize cl = (SharedPromise, ?cl')"
    using "2.prems" by (simp add: initialize_def)
  have c: "consistent ?cl'"
    using consistent_initialize [OF "2.prems"(1)] i by simp
  have "(\<forall>r \<in> set (fst (run be evs ?cl')). r = SharedPromise) \<and>
         initialized (snd (run be evs ?cl')) \<noteq> None \<and>
         count_list (backendCalls (snd (run be evs ?cl'))) CreateCall = 1 \<and>
         count_list (backendCalls (snd (run be evs ?cl'))) AddSpaceCall \<le> 1"
    by (rule run_started [OF c]) simp
  then show ?case using i by (simp only: run_call_fst run_call_snd) simp
next
  case (3 be evs cl)
  have "initTask cl = NotStarted"
    using "3.prems" by (auto simp: consistent_def split: InitTask.splits)
  then have "backendSettles be cl = cl" by (simp add: backendSettles_def)
  then show ?case using 3 by simp
qed


text \<open>
  Claim C1 (amended). On a new client whose configuration has a signer and a
  delegation, under every interleaving of calls of \<open>initialize\<close> with the progress of
  the backend: the first call stores the promise and starts the initialization body
  (the backend connection, then the space-delegation setup if the connection succeeded),
  which runs once; every call returns that one promise and so observes its outcome; once
  the promise is rejected no later call or backend event changes the client. When the
  signer or the delegation is missing, every call fails with the same missing-credential
  error, stores nothing and reaches no backend.
\<close>

theorem initialize_idempotent:
  "(signer cfg \<noteq> None \<and> delegation cfg \<noteq> None \<and> CallInitialize \<in> set evs \<longrightarrow>
      (\<forall>r \<in> set (fst (run be evs (newClient g cfg))).
          r = SharedPromise \<and>
          observed (snd (run be evs (newClient g cfg))) r =
            initialized (snd (run be evs (newClient g cfg)))) \<and>
      initialized (snd (run be evs (newClient g cfg))) \<noteq> None \<and>
      count_list (backendCalls (snd (run be evs (newClient g cfg)))) CreateCall = 1 \<and>
      count_list (backendCalls (snd (run be evs (newClient g cfg)))) AddSpaceCall \<le> 1) \<and>
   (\<forall>e. initialized (snd (run be evs (newClient g cfg))) = Some (Rejected e) \<longrightarrow>
      run be evs' (snd (run be evs (newClient g cfg))) =
        (replicate (count_list evs' CallInitialize) SharedPromise,
         snd (run be evs (newClient g cfg)))) \<and>
   (signer cfg = None \<or> delegation cfg = None \<longrightarrow>
      run be evs (newClient g cfg) =
        (replicate (count_list evs CallInitialize)
           (Threw (if signer cfg = None then PrivateKeyRequired else DelegationRequired)),
         newClient g cfg))"
proof (intro conjI impI allI)
  let ?cl0 = "newClient g cfg"
  have c0: "consistent ?cl0" by (rule consistent_newClient)
  have i0: "initialized ?cl0 = None" by (simp add: newClient_def)
  have t0: "initTask ?cl0 = NotStarted" by (simp add: newClient_def)
  have s0: "signer (config ?cl0) = signer cfg" by (simp add: newClient_def)
  have d0: "delegation (config ?cl0) = delegation cfg" by (simp add: newClient_def)
  {
    assume a: "signer cfg \<noteq> None \<and> delegation cfg \<noteq> None \<and> CallInitialize \<in> set evs"
    have f: "(\<forall>r \<in> set (fst (run be evs ?cl0)). r = SharedPromise) \<and>
         initialized (snd (run be evs ?cl0)) \<noteq> None \<and>
         count_list (backendCalls (snd (run be evs ?cl0))) CreateCall = 1 \<and>
         count_list (backendCalls (snd (run be evs ?cl0))) AddSpaceCall \<le> 1"
      using a s0 d0 by (intro run_first_call [OF c0 i0]) auto
    show "\<forall>r \<in> set (fst (run be evs ?cl0)).
          r = SharedPromise \<and>
          observed (snd (run be evs ?cl0)) r = initialized (snd (run be evs ?cl0))"
      using f by auto
    show "initialized (snd (run be evs ?cl0)) \<noteq> None" using f by blast
    show "count_list (backendCalls (snd (run be evs ?cl0))) CreateCall = 1" using f by blast
    show "count_list (backendCalls (snd (run be evs ?cl0))) AddSpaceCall \<le> 1" using f by blast
  }
  {
    fix e
    assume r: "initialized (snd (run be evs ?cl0)) = Some (Rejected e)"
    have c: "consistent (snd (run be evs ?cl0))" using c0 by (rule consistent_run)
    show "run be evs' (snd (run be evs ?cl0)) =
        (replicate (count_list evs' CallInitialize) SharedPromise, snd (run be evs ?cl0))"
      by (rule run_settled [OF c r]) simp
  }
  {
    assume m: "signer cfg = None \<or> delegation cfg = None"
    show "run be evs ?cl0 =
        (replicate (count_list evs CallInitialize)
           (Threw (if signer cfg = None then PrivateKeyRequired else DelegationRequired)),
         ?cl0)"
      using run_missing_credential [OF i0 _ t0, of be evs] m s0 d0 by simp
  }
qed

lemmas client_defs = newClient_def initialize_def backendSettles_def initFailure_def
  demoStorageConfig_def noSignerConfig_def goodBackend_def addSpaceFailsBackend_def
  demoGateway_def ready_def

theorem initialize_idempotent_witness:
  "signer demoStorageConfig \<noteq> None \<and> delegation demoStorageConfig \<noteq> None \<and>
   CallInitialize \<in> set [CallInitialize, BackendSettles, CallInitialize, BackendSettles,
                          CallInitialize] \<and>
   count_list (backendCalls (snd (run addSpaceFailsBackend
       [CallInitialize, BackendSettles, CallInitialize, BackendSettles, CallInitialize]
       (newClient demoGateway demoStorageConfig)))) CreateCall = 1 \<and>
   initialized (snd (run addSpaceFailsBackend
       [CallInitialize, BackendSettles, CallInitialize, BackendSettles, CallInitialize]
       (newClient demoGateway demoStorageConfig))) =
     Some (Rejected (InitFailed ''Failed to initialize storage client: space rejected'')) \<and>
   fst (run addSpaceFailsBackend [CallInitialize, CallInitialize]
       (snd (run addSpaceFailsBackend
          [CallInitialize, BackendSettles, CallInitialize, BackendSettles, CallInitialize]
          (newClient demoGateway demoStorageConfig)))) = [SharedPromise, SharedPromise] \<and>
   signer noSignerConfig = None \<and>
   run goodBackend [CallInitialize, BackendSettles, CallInitialize]
       (newClient demoGateway noSignerConfig) =
     ([Threw PrivateKeyRequired, Threw PrivateKeyRequired], newClient demoGateway noSignerConfig)"
proof -
  let ?evs = "[CallInitialize, BackendSettles, CallInitialize, BackendSettles, CallInitialize]"
  have h: "signer demoStorageConfig \<noteq> None \<and> delegation demoStorageConfig \<noteq> None \<and>
           CallInitialize \<in> set ?evs"
    by (simp add: demoStorageConfig_def)
  have r: "initialized (snd (run addSpaceFailsBackend ?evs (newClient demoGateway demoStorageConfig))) =
     Some (Rejected (InitFailed ''Failed to initialize storage client: space rejected''))"
    by (simp add: client_defs)
  note t = initialize_idempotent [of demoStorageConfig ?evs addSpaceFailsBackend demoGateway
      "[CallInitialize, CallInitialize]"]
  have 1: "count_list (backendCalls (snd (run addSpaceFailsBackend ?evs
       (newClient demoGateway demoStorageConfig)))) CreateCall = 1"
    using t h by blast
  have 2: "fst (run addSpaceFailsBackend [CallInitialize, CallInitialize]
       (snd (run addSpaceFailsBackend ?evs (newClient demoGateway demoStorageConfig)))) =
       [SharedPromise, SharedPromise]"
    using t r by simp
  have n: "signer noSignerConfig = None" by (simp add: noSignerConfig_def)
  have 3: "run goodBackend [CallInitialize, BackendSettles, CallInitialize]
       (newClient demoGateway noSignerConfig) =
     ([Threw PrivateKeyRequired, Threw PrivateKeyRequired], newClient demoGateway noSignerConfig)"
    using initialize_idempotent [of noSignerConfig "[CallInitialize, BackendSettles, CallInitialize]"
        goodBackend demoGateway "[]"] n
    by simp
  show ?thesis using h r 1 2 n 3 by blast
qed

text \<open>
  Without a signer the first call stores nothing and no connection is made, after any
  number of calls.
\<close>

theorem initialize_idempotent_counterexample:
  "run goodBackend [CallInitialize, CallInitialize] (newClient demoGateway noSignerConfig) =
     ([Threw PrivateKeyRequired, Threw PrivateKeyRequired], newClient demoGateway noSignerConfig) \<and>
   initialized (newClient demoGateway noSignerConfig) = None \<and>
   count_list (backendCalls (newClient demoGateway noSignerConfig)) CreateCall = 0"
  by (simp add: client_defs)

section \<open>The guard of the upload operations\<close>

text \<open>With no stored promise or no backend client both uploads fail before any backend call.\<close>

lemma upload_guard:
  assumes "initialized cl = None \<or> storage cl = None"
  shows "uploadFiles be dec cl fs opts = (Inl ClientNotInitialized, cl)"
    and "uploadFilesFromUrls be net cl specs opts urlConfig = (Inl ClientNotInitialized, cl)"
  using assms by (auto simp: uploadFiles_def uploadFilesFromUrls_def)

text \<open>
  Claim C2, evaluated where it fails. The connection succeeds and the space-delegation
  setup is rejected: the stored promise is rejected, so the client is not Ready, but
  \<open>this.storage\<close> was assigned at line 87 before the setup ran. The guard of lines 157
  and 184 looks at the two fields only, so both uploads go on to
  \<open>uploadDirectory\<close> of the backend.
\<close>

theorem upload_after_failed_initialization:
  "initialized (snd (run addSpaceFailsBackend [CallInitialize, BackendSettles, BackendSettles]
       (newClient demoGateway demoStorageConfig))) =
     Some (Rejected (InitFailed ''Failed to initialize storage client: space rejected'')) \<and>
   \<not> ready (snd (run addSpaceFailsBackend [CallInitialize, BackendSettles, BackendSettles]
       (newClient demoGateway demoStorageConfig))) \<and>
   fst (uploadFiles addSpaceFailsBackend (\<lambda>s. Some [97])
         (snd (run addSpaceFailsBackend [CallInitialize, BackendSettles, BackendSettles]
            (newClient demoGateway demoStorageConfig)))
         [\<lparr>ufName = ''a.txt'', content = ''YQ==''\<rparr>]
         \<lparr>signal = None, retries = None, publishToFilecoin = None\<rparr>) \<noteq> Inl ClientNotInitialized \<and>
   backendCalls (snd (uploadFiles addSpaceFailsBackend (\<lambda>s. Some [97])
         (snd (run addSpaceFailsBackend [CallInitialize, BackendSettles, BackendSettles]
            (newClient demoGateway demoStorageConfig)))
         [\<lparr>ufName = ''a.txt'', content = ''YQ==''\<rparr>]
         \<lparr>signal = None, retries = None, publishToFilecoin = None\<rparr>)) =
     [CreateCall, AddSpaceCall,
      UploadDirectoryCall [\<lparr>fileName = ''a.txt'', fileBytes = [97], fileType = []\<rparr>]] \<and>
   backendCalls (snd (uploadFilesFromUrls addSpaceFailsBackend
         (demoNet None None demoChunks None)
         (snd (run addSpaceFailsBackend [CallInitialize, BackendSettles, BackendSettles]
            (newClient demoGateway demoStorageConfig)))
         [demoSpec None]
         \<lparr>signal = None, retries = None, publishToFilecoin = None\<rparr> None)) =
     [CreateCall, AddSpaceCall,
      UploadDirectoryCall [\<lparr>fileName = ''a.bin'', fileBytes = [1, 2, 3, 4, 5],
                            fileType = ''application/octet-stream''\<rparr>]]"
  by (simp add: client_defs uploadFiles_def uploadFilesFromUrls_def performUpload_def
      signalIsAborted_def getGatewayUrl_def promiseAll_def collectEntries_def
      fetch_defs demo_defs)

section \<open>Path parsing\<close>

lemma splitAtSlash_join:
  "CHR ''/'' \<notin> set i \<Longrightarrow> splitAtSlash (i @ CHR ''/'' # rest) = Some (i, rest)"
proof -
  assume a: "CHR ''/'' \<notin> set i"
  have t: "takeWhile (\<lambda>c. c \<noteq> CHR ''/'') (i @ CHR ''/'' # rest) = i"
    using a by (induction i) auto
  have d: "dropWhile (\<lambda>c. c \<noteq> CHR ''/'') (i @ CHR ''/'' # rest) = CHR ''/'' # rest"
    using a by (induction i) auto
  show ?thesis by (simp add: splitAtSlash_def t d)
qed

lemma splitAtSlash_Some:
  assumes "splitAtSlash s = Some (i, rest)"
  shows "s = i @ CHR ''/'' # rest \<and> CHR ''/'' \<notin> set i"
proof -
  let ?P = "\<lambda>c. c \<noteq> CHR ''/''"
  have m: "CHR ''/'' \<in> set s" and i: "i = takeWhile ?P s" and r: "rest = tl (dropWhile ?P s)"
    using assms by (auto simp: splitAtSlash_def split: if_splits)
  have ne: "dropWhile ?P s \<noteq> []" using m by (simp add: dropWhile_eq_Nil_conv) 
  have h: "hd (dropWhile ?P s) = CHR ''/''" using ne hd_dropWhile [of ?P s] by simp
  have "dropWhile ?P s = CHR ''/'' # rest" using ne h r by (cases "dropWhile ?P s") auto
  then have "s = i @ CHR ''/'' # rest" using i takeWhile_dropWhile_id [of ?P s] by simp
  moreover have "CHR ''/'' \<notin> set i" using i by (auto dest: set_takeWhileD)
  ultimately show ?thesis by simp
qed

lemma parseForm_join:
  "valid i \<Longrightarrow> CHR ''/'' \<notin> set i \<Longrightarrow>
     parseForm valid (i @ CHR ''/'' # rest) =
       Some \<lparr>resProtocol = ''ipfs:'', resCid = i, pathname = CHR ''/'' # rest\<rparr>"
  by (simp add: parseForm_def splitAtSlash_join)

lemma parseForm_Some:
  assumes "parseForm valid s = Some r"
  shows "\<exists>i rest. s = i @ CHR ''/'' # rest \<and> CHR ''/'' \<notin> set i \<and> valid i \<and>
           r = \<lparr>resProtocol = ''ipfs:'', resCid = i, pathname = CHR ''/'' # rest\<rparr>"
  using assms
  by (auto simp: parseForm_def split: option.splits prod.splits if_splits
      dest: splitAtSlash_Some)

lemma stripPrefix_Some: "stripPrefix p s = Some t \<Longrightarrow> s = p @ t"
  by (auto simp: stripPrefix_def split: if_splits) (metis append_take_drop_id)

lemma stripPrefix_append [simp]: "stripPrefix p (p @ t) = Some t"
  by (simp add: stripPrefix_def)

text \<open>
  Claim C8. For a valid identifier \<open>i\<close> with no slash (the empty string and \<open>ipfs:\<close>
  are not valid identifiers), the three forms \<open>i/rest\<close>, \<open>/ipfs/i/rest\<close> and
  \<open>ipfs://i/rest\<close> parse to the same resource, with identifier \<open>i\<close> and pathname
  \<open>/rest\<close>; every parsed pathname begins with a slash; an input of none of the three
  forms fails with InvalidPath.
\<close>

theorem parse_forms_agree:
  "(valid i \<and> CHR ''/'' \<notin> set i \<and> \<not> valid [] \<and> \<not> valid ''ipfs:'' \<longrightarrow>
      parseIpfsPath valid (i @ ''/'' @ rest) =
        Inr \<lparr>resProtocol = ''ipfs:'', resCid = i, pathname = ''/'' @ rest\<rparr> \<and>
      parseIpfsPath valid (''/ipfs/'' @ i @ ''/'' @ rest) =
        Inr \<lparr>resProtocol = ''ipfs:'', resCid = i, pathname = ''/'' @ rest\<rparr> \<and>
      parseIpfsPath valid (''ipfs://'' @ i @ ''/'' @ rest) =
        Inr \<lparr>resProtocol = ''ipfs:'', resCid = i, pathname = ''/'' @ rest\<rparr>) \<and>
   (\<forall>r. parseIpfsPath valid p = Inr r \<longrightarrow> pathname r \<noteq> [] \<and> hd (pathname r) = CHR ''/'') \<and>
   (\<not> (\<exists>j t. valid j \<and> CHR ''/'' \<notin> set j \<and>
          (p = j @ ''/'' @ t \<or> p = ''/ipfs/'' @ j @ ''/'' @ t \<or> p = ''ipfs://'' @ j @ ''/'' @ t)) \<longrightarrow>
      parseIpfsPath valid p = Inl (InvalidPath p))"
proof (intro conjI impI allI)
  assume a: "valid i \<and> CHR ''/'' \<notin> set i \<and> \<not> valid [] \<and> \<not> valid ''ipfs:''"
  let ?R = "\<lparr>resProtocol = ''ipfs:'', resCid = i, pathname = ''/'' @ rest\<rparr>"
  have f: "parseForm valid (i @ ''/'' @ rest) = Some ?R"
    using a parseForm_join [of valid i rest] by simp
  show "parseIpfsPath valid (i @ ''/'' @ rest) = Inr ?R"
    using f by (simp add: parseIpfsPath_def)
  have s2: "splitAtSlash (''/ipfs/'' @ i @ ''/'' @ rest) = Some ([], ''ipfs/'' @ i @ ''/'' @ rest)"
    using splitAtSlash_join [of "[]" "''ipfs/'' @ i @ ''/'' @ rest"] by simp
  have n2: "parseForm valid (''/ipfs/'' @ i @ ''/'' @ rest) = None"
    using a s2 by (simp add: parseForm_def)
  have p2: "parsePrefixed valid ''/ipfs/'' (''/ipfs/'' @ i @ ''/'' @ rest) = Some ?R"
    using f stripPrefix_append [of "''/ipfs/''" "i @ ''/'' @ rest"]
    by (simp add: parsePrefixed_def del: stripPrefix_append)
  show "parseIpfsPath valid (''/ipfs/'' @ i @ ''/'' @ rest) = Inr ?R"
    using n2 p2 by (simp add: parseIpfsPath_def)
  have s3: "splitAtSlash (''ipfs://'' @ i @ ''/'' @ rest) = Some (''ipfs:'', ''/'' @ i @ ''/'' @ rest)"
    using splitAtSlash_join [of "''ipfs:''" "''/'' @ i @ ''/'' @ rest"] by simp
  have n3: "parseForm valid (''ipfs://'' @ i @ ''/'' @ rest) = None"
    using a s3 by (simp add: parseForm_def)
  have n3': "parsePrefixed valid ''/ipfs/'' (''ipfs://'' @ i @ ''/'' @ rest) = None"
    by (simp add: parsePrefixed_def stripPrefix_def)
  have p3: "parsePrefixed valid ''ipfs://'' (''ipfs://'' @ i @ ''/'' @ rest) = Some ?R"
    using f stripPrefix_append [of "''ipfs://''" "i @ ''/'' @ rest"]
    by (simp add: parsePrefixed_def del: stripPrefix_append)
  show "parseIpfsPath valid (''ipfs://'' @ i @ ''/'' @ rest) = Inr ?R"
    using n3 n3' p3 by (simp add: parseIpfsPath_def)
next
  fix r
  assume "parseIpfsPath valid p = Inr r"
  then have "parseForm valid p = Some r \<or>
             (\<exists>t. parseForm valid t = Some r)"
    by (auto simp: parseIpfsPath_def parsePrefixed_def split: option.splits)
  then obtain s where "parseForm valid s = Some r" by blast
  then have "\<exists>i rest. r = \<lparr>resProtocol = ''ipfs:'', resCid = i, pathname = CHR ''/'' # rest\<rparr>"
    using parseForm_Some by blast
  then show "pathname r \<noteq> []" and "hd (pathname r) = CHR ''/''" by auto
next
  assume n: "\<not> (\<exists>j t. valid j \<and> CHR ''/'' \<notin> set j \<and>
          (p = j @ ''/'' @ t \<or> p = ''/ipfs/'' @ j @ ''/'' @ t \<or> p = ''ipfs://'' @ j @ ''/'' @ t))"
  have 1: "parseForm valid p = None"
  proof (rule ccontr)
    assume "parseForm valid p \<noteq> None"
    then obtain r where "parseForm valid p = Some r" by auto
    then obtain j t where "p = j @ CHR ''/'' # t" "CHR ''/'' \<notin> set j" "valid j"
      using parseForm_Some by blast
    then show False using n by auto
  qed
  have 2: "parsePrefixed valid ''/ipfs/'' p = None"
  proof (rule ccontr)
    assume "parsePrefixed valid ''/ipfs/'' p \<noteq> None"
    then obtain r b where b: "stripPrefix ''/ipfs/'' p = Some b" "parseForm valid b = Some r"
      by (auto simp: parsePrefixed_def split: option.splits)
    obtain j t where "b = j @ CHR ''/'' # t" "CHR ''/'' \<notin> set j" "valid j"
      using parseForm_Some [OF b(2)] by blast
    moreover have "p = ''/ipfs/'' @ b" using b(1) by (rule stripPrefix_Some)
    ultimately show False using n by auto
  qed
  have 3: "parsePrefixed valid ''ipfs://'' p = None"
  proof (rule ccontr)
    assume "parsePrefixed valid ''ipfs://'' p \<noteq> None"
    then obtain r b where b: "stripPrefix ''ipfs://'' p = Some b" "parseForm valid b = Some r"
      by (auto simp: parsePrefixed_def split: option.splits)
    obtain j t where "b = j @ CHR ''/'' # t" "CHR ''/'' \<notin> set j" "valid j"
      using parseForm_Some [OF b(2)] by blast
    moreover have "p = ''ipfs://'' @ b" using b(1) by (rule stripPrefix_Some)
    ultimately show False using n by auto
  qed
  show "parseIpfsPath valid p = Inl (InvalidPath p)"
    using 1 2 3 by (simp add: parseIpfsPath_def)
qed


theorem parse_forms_agree_witness:
  "demoValidCid ''bafyXYZ'' \<and> CHR ''/'' \<notin> set ''bafyXYZ'' \<and> \<not> demoValidCid [] \<and>
   \<not> demoValidCid ''ipfs:'' \<and>
   parseIpfsPath demoValidCid ''bafyXYZ/readme.txt'' =
     Inr \<lparr>resProtocol = ''ipfs:'', resCid = ''bafyXYZ'', pathname = ''/readme.txt''\<rparr> \<and>
   parseIpfsPath demoValidCid ''/ipfs/bafyXYZ/readme.txt'' =
     Inr \<lparr>resProtocol = ''ipfs:'', resCid = ''bafyXYZ'', pathname = ''/readme.txt''\<rparr> \<and>
   parseIpfsPath demoValidCid ''ipfs://bafyXYZ/readme.txt'' =
     Inr \<lparr>resProtocol = ''ipfs:'', resCid = ''bafyXYZ'', pathname = ''/readme.txt''\<rparr> \<and>
   parseIpfsPath demoValidCid ''readme.txt'' = Inl (InvalidPath ''readme.txt'')"
proof -
  have h: "demoValidCid ''bafyXYZ'' \<and> CHR ''/'' \<notin> set ''bafyXYZ'' \<and> \<not> demoValidCid [] \<and>
           \<not> demoValidCid ''ipfs:''"
    by (simp add: demoValidCid_def)
  have n: "\<not> (\<exists>j t. demoValidCid j \<and> CHR ''/'' \<notin> set j \<and>
          (''readme.txt'' = j @ ''/'' @ t \<or> ''readme.txt'' = ''/ipfs/'' @ j @ ''/'' @ t \<or>
           ''readme.txt'' = ''ipfs://'' @ j @ ''/'' @ t))"
  proof
    assume "\<exists>j t. demoValidCid j \<and> CHR ''/'' \<notin> set j \<and>
          (''readme.txt'' = j @ ''/'' @ t \<or> ''readme.txt'' = ''/ipfs/'' @ j @ ''/'' @ t \<or>
           ''readme.txt'' = ''ipfs://'' @ j @ ''/'' @ t)"
    then obtain j t where "''readme.txt'' = j @ ''/'' @ t \<or> ''readme.txt'' = ''/ipfs/'' @ j @ ''/'' @ t \<or>
           ''readme.txt'' = ''ipfs://'' @ j @ ''/'' @ t" by blast
    then have "CHR ''/'' \<in> set ''readme.txt''"
      by (metis Un_iff append_Cons list.set_intros(1) set_append)
    then show False by simp
  qed
  show ?thesis
    using parse_forms_agree [of demoValidCid "''bafyXYZ''" "''readme.txt''" "''readme.txt''"] h n
    by simp
qed

section \<open>Retrieval from the gateway\<close>

lemma blockGet_None: "reader c = None \<Longrightarrow> blockGet reader c = Inl (BlockNotFound c)"
  by (simp add: blockGet_def)

lemma blockGet_Some: "reader c = Some b \<Longrightarrow> blockGet reader c = Inr b"
  by (simp add: blockGet_def)

lemma runPull_missing:
  "c \<in> set (asked (blockGet reader) p) \<Longrightarrow> reader c = None \<Longrightarrow>
     runPull (blockGet reader) p = Inl (BlockNotFound c)"
proof (induction p)
  case (Done a)
  then show ?case by simp
next
  case (Fail m)
  then show ?case by simp
next
  case (Need d k)
  show ?case
  proof (cases "reader d")
    case None
    then have "c = d" using Need.prems(1) by (simp add: blockGet_None)
    then show ?thesis using None by (simp add: blockGet_None)
  next
    case (Some b)
    then have "c \<noteq> d" using Need.prems(2) by auto
    then have "c \<in> set (asked (blockGet reader) (k b))"
      using Need.prems(1) Some by (simp add: blockGet_Some)
    then have "runPull (blockGet reader) (k b) = Inl (BlockNotFound c)"
      using Need.IH Need.prems(2) by blast
    then show ?thesis using Some by (simp add: blockGet_Some)
  qed
qed

lemma runPull_ok_present:
  assumes "runPull (blockGet reader) p = Inr a" "c \<in> set (asked (blockGet reader) p)"
  shows "reader c \<noteq> None"
proof
  assume "reader c = None"
  then have "runPull (blockGet reader) p = Inl (BlockNotFound c)"
    using assms(2) runPull_missing by blast
  then show False using assms(1) by simp
qed


text \<open>
  Claim C9 (amended). \<open>retrieve\<close> hands one URL to \<open>fetch\<close>: the one that the URL
  constructor of the platform gives for the reference \<open>/ipfs/\<close>, identifier, pathname,
  \<open>?format=car\<close> against the gateway URL, which is the origin of the gateway followed
  by that reference whenever the constructor leaves the reference as it is. A response
  without a success status fails the call; when the export asks for a block that the
  decoded archive does not hold, the call fails with the not-found error for that
  block; and a call that succeeds found every block it asked for and encodes the
  complete export.
\<close>

theorem retrieve_from_gateway:
  assumes "parseIpfsPath (validCid env) filepath = Inr res" "getGatewayUrl cl = Inr g"
  shows "snd (retrieve env cl filepath opts) =
           [href (newURL env (''/ipfs/'' @ resCid res @ pathname res @ ''?format=car'') g)] \<and>
         (href (newURL env (''/ipfs/'' @ resCid res @ pathname res @ ''?format=car'') g) =
            origin g @ ''/ipfs/'' @ resCid res @ pathname res @ ''?format=car'' \<longrightarrow>
          snd (retrieve env cl filepath opts) =
            [origin g @ ''/ipfs/'' @ resCid res @ pathname res @ ''?format=car'']) \<and>
         (\<forall>resp.
            gatewayFetch env
              (href (newURL env (''/ipfs/'' @ resCid res @ pathname res @ ''?format=car'') g))
              = Inr resp \<and> \<not> ok resp \<longrightarrow>
            fst (retrieve env cl filepath opts) =
              Inl (GatewayError (status resp) (statusText resp))) \<and>
         (\<forall>resp bs reader c.
            gatewayFetch env
              (href (newURL env (''/ipfs/'' @ resCid res @ pathname res @ ''?format=car'') g))
              = Inr resp \<and> ok resp \<and> arrayBuffer resp = Inr bs \<and>
            carFromBytes env bs = Inr reader \<and>
            c \<in> set (asked (blockGet reader) (exporter env (resCid res @ pathname res))) \<and>
            reader c = None \<longrightarrow>
            fst (retrieve env cl filepath opts) = Inl (BlockNotFound c)) \<and>
         (\<forall>r. fst (retrieve env cl filepath opts) = Inr r \<longrightarrow>
            (\<exists>resp bs reader exported.
               gatewayFetch env
                 (href (newURL env (''/ipfs/'' @ resCid res @ pathname res @ ''?format=car'') g))
                 = Inr resp \<and> ok resp \<and> arrayBuffer resp = Inr bs \<and>
               carFromBytes env bs = Inr reader \<and>
               runPull (blockGet reader) (exporter env (resCid res @ pathname res)) = Inr exported \<and>
               (\<forall>c \<in> set (asked (blockGet reader) (exporter env (resCid res @ pathname res))).
                  reader c \<noteq> None) \<and>
               (\<exists>m. data r = streamToBase64 env exported m)))"
proof (intro conjI allI impI)
  let ?t = "href (newURL env (''/ipfs/'' @ resCid res @ pathname res @ ''?format=car'') g)"
  have tgt: "href (newURL env (''/ipfs/'' @ (resCid res @ pathname res) @ ''?format=car'') g) = ?t"
    by simp
  show req: "snd (retrieve env cl filepath opts) = [?t]"
    using assms tgt
    by (auto simp: retrieve_def Let_def simp del: append_assoc
        split: sum.splits option.splits)
  {
    assume "?t = origin g @ ''/ipfs/'' @ resCid res @ pathname res @ ''?format=car''"
    then show "snd (retrieve env cl filepath opts) =
            [origin g @ ''/ipfs/'' @ resCid res @ pathname res @ ''?format=car'']"
      using req by simp
  }
  {
    fix resp
    assume "gatewayFetch env ?t = Inr resp \<and> \<not> ok resp"
    then show "fst (retrieve env cl filepath opts) =
              Inl (GatewayError (status resp) (statusText resp))"
      using assms tgt by (simp add: retrieve_def Let_def del: append_assoc)
  }
  {
    fix resp bs reader c
    assume a: "gatewayFetch env ?t = Inr resp \<and> ok resp \<and> arrayBuffer resp = Inr bs \<and>
            carFromBytes env bs = Inr reader \<and>
            c \<in> set (asked (blockGet reader) (exporter env (resCid res @ pathname res))) \<and>
            reader c = None"
    then have "runPull (blockGet reader) (exporter env (resCid res @ pathname res)) =
                 Inl (BlockNotFound c)"
      using runPull_missing by blast
    then show "fst (retrieve env cl filepath opts) = Inl (BlockNotFound c)"
      using assms tgt a by (simp add: retrieve_def Let_def del: append_assoc)
  }
  {
    fix r
    assume ok: "fst (retrieve env cl filepath opts) = Inr r"
    obtain resp where resp: "gatewayFetch env ?t = Inr resp" "ok resp"
      using ok assms tgt
      by (auto simp: retrieve_def Let_def simp del: append_assoc split: sum.splits if_splits)
    obtain bs where bs: "arrayBuffer resp = Inr bs"
      using ok assms tgt resp
      by (auto simp: retrieve_def Let_def simp del: append_assoc split: sum.splits if_splits)
    obtain reader where rd: "carFromBytes env bs = Inr reader"
      using ok assms tgt resp bs
      by (auto simp: retrieve_def Let_def simp del: append_assoc split: sum.splits if_splits)
    obtain exported where ex:
      "runPull (blockGet reader) (exporter env (resCid res @ pathname res)) = Inr exported"
      using ok assms tgt resp bs rd
      by (auto simp: retrieve_def Let_def simp del: append_assoc split: sum.splits if_splits)
    have d: "\<exists>m. data r = streamToBase64 env exported m"
      using ok assms tgt resp bs rd ex
      by (auto simp: retrieve_def Let_def simp del: append_assoc split: sum.splits if_splits)
    have pr: "\<forall>c \<in> set (asked (blockGet reader) (exporter env (resCid res @ pathname res))).
                  reader c \<noteq> None"
      using runPull_ok_present [OF ex] by blast
    show "\<exists>resp bs reader exported.
               gatewayFetch env ?t = Inr resp \<and> ok resp \<and> arrayBuffer resp = Inr bs \<and>
               carFromBytes env bs = Inr reader \<and>
               runPull (blockGet reader) (exporter env (resCid res @ pathname res)) = Inr exported \<and>
               (\<forall>c \<in> set (asked (blockGet reader) (exporter env (resCid res @ pathname res))).
                  reader c \<noteq> None) \<and>
               (\<exists>m. data r = streamToBase64 env exported m)"
      using resp bs rd ex pr d by blast
  }
qed

lemmas retrieve_defs = demoRetrieveEnv_def demoValidCid_def demoExporter_def demoGateway_def
  demoHeaders_def truncatedArchive_def completeArchive_def demoStorageConfig_def newClient_def
  demoNewURL_def getGatewayUrl_def parseIpfsPath_def parseForm_def parsePrefixed_def
  stripPrefix_def splitAtSlash_def arrayBuffer_def blockGet_def retrieve_def Let_def

theorem retrieve_from_gateway_witness:
  "parseIpfsPath (validCid (demoRetrieveEnv True truncatedArchive)) ''bafy1/readme.txt'' =
     Inr \<lparr>resProtocol = ''ipfs:'', resCid = ''bafy1'', pathname = ''/readme.txt''\<rparr> \<and>
   getGatewayUrl (newClient demoGateway demoStorageConfig) = Inr demoGateway \<and>
   retrieve (demoRetrieveEnv True truncatedArchive) (newClient demoGateway demoStorageConfig)
       ''bafy1/readme.txt'' None =
     (Inl (BlockNotFound ''bafy2''), [''https://gw.example/ipfs/bafy1/readme.txt?format=car''])"
proof -
  let ?env = "demoRetrieveEnv True truncatedArchive"
  let ?cl = "newClient demoGateway demoStorageConfig"
  let ?res = "\<lparr>resProtocol = ''ipfs:'', resCid = ''bafy1'', pathname = ''/readme.txt''\<rparr>"
  let ?resp = "\<lparr>ok = True, status = 200, statusText = ''OK'',
                headers = demoHeaders None None, body = Some ([] :: ReadResult list)\<rparr>"
  have p: "parseIpfsPath (validCid ?env) ''bafy1/readme.txt'' = Inr ?res"
    by (simp add: retrieve_defs)
  have g: "getGatewayUrl ?cl = Inr demoGateway"
    by (simp add: retrieve_defs)
  have u: "href (newURL ?env (''/ipfs/'' @ resCid ?res @ pathname ?res @ ''?format=car'') demoGateway) =
             origin demoGateway @ ''/ipfs/'' @ resCid ?res @ pathname ?res @ ''?format=car''"
    by (simp add: demoRetrieveEnv_def demoNewURL_def demoGateway_def)
  have a: "gatewayFetch ?env
             (href (newURL ?env (''/ipfs/'' @ resCid ?res @ pathname ?res @ ''?format=car'') demoGateway))
             = Inr ?resp \<and> ok ?resp \<and> arrayBuffer ?resp = Inr [] \<and>
           carFromBytes ?env [] = Inr truncatedArchive \<and>
           ''bafy2'' \<in> set (asked (blockGet truncatedArchive) (exporter ?env (resCid ?res @ pathname ?res))) \<and>
           truncatedArchive ''bafy2'' = None"
    by (simp add: retrieve_defs)
  note t = retrieve_from_gateway [OF p g, of None]
  have 1: "snd (retrieve ?env ?cl ''bafy1/readme.txt'' None) =
             [''https://gw.example/ipfs/bafy1/readme.txt?format=car'']"
    using t u by (simp add: demoGateway_def)
  have 2: "fst (retrieve ?env ?cl ''bafy1/readme.txt'' None) = Inl (BlockNotFound ''bafy2'')"
    using t a by blast
  show ?thesis using p g 1 2 by (simp add: prod_eq_iff)
qed

text \<open>
  A pathname with dot segments: the parser passes it on unchanged, the URL constructor
  resolves it, and the request leaves the \<open>/ipfs/\<close> tree of the gateway.
\<close>

theorem retrieve_from_gateway_counterexample:
  "parseIpfsPath demoValidCid ''bafy1/a/../../../admin'' =
     Inr \<lparr>resProtocol = ''ipfs:'', resCid = ''bafy1'', pathname = ''/a/../../../admin''\<rparr> \<and>
   snd (retrieve (demoRetrieveEnv True completeArchive) (newClient demoGateway demoStorageConfig)
          ''bafy1/a/../../../admin'' None) = [''https://gw.example/admin?format=car''] \<and>
   origin demoGateway @ ''/ipfs/'' @ ''bafy1'' @ ''/a/../../../admin'' @ ''?format=car'' \<noteq>
     ''https://gw.example/admin?format=car''"
  by (simp add: retrieve_defs)

text \<open>The same request on the complete archive, and on a gateway that answers 404.\<close>

lemma retrieve_examples:
  "retrieve (demoRetrieveEnv True completeArchive) (newClient demoGateway demoStorageConfig)
       ''ipfs://bafy1/readme.txt'' None =
     (Inr \<lparr>data = ''xxx'', type = None\<rparr>,
      [''https://gw.example/ipfs/bafy1/readme.txt?format=car''])"
  "retrieve (demoRetrieveEnv False completeArchive) (newClient demoGateway demoStorageConfig)
       ''/ipfs/bafy1/readme.txt'' None =
     (Inl (GatewayError 404 ''Not Found''),
      [''https://gw.example/ipfs/bafy1/readme.txt?format=car''])"
  by (simp_all add: retrieve_defs)

end
